theory Spec2Isabelle
  imports Main
begin

section \<open>Data model of main.py\<close>

text \<open>
  The role constants, the error text and the two SQLAlchemy models. A column declared
  \<open>nullable=True\<close> is an option; a column declared \<open>nullable=False\<close> is a plain
  value, and the handlers below fail with \<open>IntegrityError\<close> where the source would commit
  \<open>None\<close> into such a column. The primary key \<open>_id\<close> is written \<open>user_id\<close> and
  \<open>case_id\<close>.
\<close>

definition GUEST_ROLE :: int where "GUEST_ROLE = 1"
definition DETECTIVE_ROLE :: int where "DETECTIVE_ROLE = 2"
definition BOSS_ROLE :: int where "BOSS_ROLE = 3"

definition SAME_EMAIL_ERROR :: string where
  "SAME_EMAIL_ERROR = ''There's already an account linked to this e-mail''"

record User =
  user_id :: int
  name :: string
  last_name :: "string option"
  password :: string
  email :: string
  role :: "int option"
  detective_id :: "string option"
  approved :: bool

record Case =
  case_id :: int
  uid :: "int option"
  title :: string
  description :: "string option"
  content :: string

text \<open>
  The message built in \<open>approve\<close>: subject, body, sender and recipients of
  \<open>EmailMessage\<close>.
\<close>

record email_message =
  subject :: string
  body :: string
  from_email :: "string option"
  recipients :: "string list"

text \<open>
  The exceptions a handler can leave uncaught. \<open>AttributeError\<close> is an attribute access
  on \<open>None\<close>, \<open>IntegrityError\<close> a commit that violates a NOT NULL column,
  \<open>NoResponse\<close> a view function that falls through both branches of its
  \<open>if\<close>/\<open>elif\<close> on the HTTP verb and returns \<open>None\<close>, and
  \<open>LibraryError\<close> whatever the password library raises.
\<close>

datatype error = AttributeError | IntegrityError | NoResponse | LibraryError

datatype http_method = GET | POST | HEAD

record request =
  request_method :: http_method
  form :: "string \<Rightarrow> string option"

datatype endpoint =
    Index
  | Login
  | Login_new_user
  | Login_next
  | Users
  | Approvals
  | User_page int
  | Case_page int

datatype template =
    Register_html string "string option"
  | Login_html
  | Index_html "Case list"
  | Users_html "User list" bool
  | User_page_html User
  | New_case_html
  | Case_page_html Case

datatype response = Redirect endpoint | Render template | Abort nat

datatype log_line = Email_settings_warning

text \<open>
  The state a request runs in: the two tables in insertion order, the user id held by
  the requesting client's session, every message on which \<open>send\<close> was called, and what
  was printed.
\<close>

record state =
  db_users :: "User list"
  db_cases :: "Case list"
  session :: "int option"
  send_calls :: "email_message list"
  stdout :: "log_line list"

text \<open>
  What main.py takes from outside the repository: the two Flask-Bcrypt calls (either may
  raise), whether \<open>msg.send()\<close> returns normally for a message, and the environment
  variables \<open>DOMAIN\<close> and \<open>EMAIL_ACCOUNT\<close>.
\<close>

record env =
  generate_password_hash :: "string option \<Rightarrow> error + string"
  check_password_hash :: "string \<Rightarrow> string option \<Rightarrow> error + bool"
  send_ok :: "email_message \<Rightarrow> bool"
  DOMAIN :: "string option"
  EMAIL_ACCOUNT :: "string option"

type_synonym result = "error + (response \<times> state)"

section \<open>Queries\<close>

text \<open>\<open>User.query.get(i)\<close> and \<open>User.query.filter_by(_id=i).first()\<close>.\<close>

definition load_user :: "state \<Rightarrow> int \<Rightarrow> User option" where
  "load_user s i = find (\<lambda>u. user_id u = i) (db_users s)"

text \<open>
  \<open>User.query.filter_by(email=e).first()\<close>. A missing form field is \<open>None\<close>, and the
  email column is never NULL, so \<open>None\<close> matches no row.
\<close>

definition first_by_email :: "state \<Rightarrow> string option \<Rightarrow> User option" where
  "first_by_email s e =
     (case e of None \<Rightarrow> None | Some a \<Rightarrow> find (\<lambda>u. email u = a) (db_users s))"

definition find_case :: "state \<Rightarrow> int \<Rightarrow> Case option" where
  "find_case s c = find (\<lambda>k. case_id k = c) (db_cases s)"

text \<open>The \<open>user\<close> back-reference of a case: the row its \<open>uid\<close> points to, if any.\<close>

definition case_user :: "state \<Rightarrow> Case \<Rightarrow> User option" where
  "case_user s k = (case uid k of None \<Rightarrow> None | Some i \<Rightarrow> load_user s i)"

text \<open>
  \<open>current_user\<close> is the row \<open>load_user\<close> returns for the session's user id;
  \<open>is_authenticated\<close> holds when there is one.
\<close>

definition current_user :: "state \<Rightarrow> User option" where
  "current_user s = (case session s of None \<Rightarrow> None | Some i \<Rightarrow> load_user s i)"

definition is_authenticated :: "state \<Rightarrow> bool" where
  "is_authenticated s = (current_user s \<noteq> None)"

text \<open>
  \<open>current_user == x\<close>: \<open>UserMixin.__eq__\<close> compares \<open>get_id()\<close>, and nothing
  equals \<open>None\<close>.
\<close>

definition eq_user :: "User \<Rightarrow> User option \<Rightarrow> bool" where
  "eq_user cu x = (case x of None \<Rightarrow> False | Some u \<Rightarrow> user_id cu = user_id u)"

text \<open>The key SQLite gives a new row of a table whose keys are \<open>ids\<close>: the largest plus one.\<close>

definition new_id :: "int list \<Rightarrow> int" where
  "new_id ids = fold max ids 0 + 1"

section \<open>Handlers\<close>

text \<open>\<open>@login_required\<close>: an anonymous request is sent to the login view.\<close>

definition login_required :: "(User \<Rightarrow> state \<Rightarrow> result) \<Rightarrow> state \<Rightarrow> result" where
  "login_required view s =
     (case current_user s of
        None \<Rightarrow> Inr (Redirect Login_next, s)
      | Some cu \<Rightarrow> view cu s)"

definition index :: "state \<Rightarrow> result" where
  "index = login_required (\<lambda>cu s. Inr (Render (Index_html (db_cases s)), s))"

text \<open>
  \<open>db.session.add(User(...)); db.session.commit()\<close>. The name and the email come from
  \<open>request.form.get\<close> and go into NOT NULL columns.
\<close>

definition add_user ::
  "state \<Rightarrow> string option \<Rightarrow> string option \<Rightarrow> string option \<Rightarrow> string \<Rightarrow> int
     \<Rightarrow> string option \<Rightarrow> bool \<Rightarrow> error + state" where
  "add_user s n ln e pw r d a =
     (case n of
        None \<Rightarrow> Inl IntegrityError
      | Some n' \<Rightarrow>
          (case e of
             None \<Rightarrow> Inl IntegrityError
           | Some e' \<Rightarrow>
               Inr (s\<lparr>db_users := db_users s @
                 [\<lparr>user_id = new_id (map user_id (db_users s)), name = n', last_name = ln,
                   password = pw, email = e', role = Some r, detective_id = d,
                   approved = a\<rparr>]\<rparr>)))"

definition register_guest :: "env \<Rightarrow> request \<Rightarrow> state \<Rightarrow> result" where
  "register_guest ev rq s =
     (if is_authenticated s then Inr (Redirect Index, s)
      else case request_method rq of
        GET \<Rightarrow> Inr (Render (Register_html ''register_guest'' None), s)
      | POST \<Rightarrow>
          (case generate_password_hash ev (form rq ''password'') of
             Inl x \<Rightarrow> Inl x
           | Inr password_hashed \<Rightarrow>
               (case first_by_email s (form rq ''email'') of
                  Some has_email \<Rightarrow>
                    Inr (Render (Register_html ''register_guest'' (Some SAME_EMAIL_ERROR)), s)
                | None \<Rightarrow>
                    (case add_user s (form rq ''name'') (form rq ''last_name'')
                            (form rq ''email'') password_hashed GUEST_ROLE None True of
                       Inl x \<Rightarrow> Inl x
                     | Inr s' \<Rightarrow> Inr (Redirect Index, s'))))
      | HEAD \<Rightarrow> Inl NoResponse)"

definition register_detective :: "env \<Rightarrow> request \<Rightarrow> state \<Rightarrow> result" where
  "register_detective ev rq s =
     (if is_authenticated s then Inr (Redirect Index, s)
      else case request_method rq of
        GET \<Rightarrow> Inr (Render (Register_html ''register_detective'' None), s)
      | POST \<Rightarrow>
          (case generate_password_hash ev (form rq ''password'') of
             Inl x \<Rightarrow> Inl x
           | Inr password_hashed \<Rightarrow>
               (case first_by_email s (form rq ''email'') of
                  Some has_email \<Rightarrow>
                    Inr (Render (Register_html ''register_detective'' (Some SAME_EMAIL_ERROR)), s)
                | None \<Rightarrow>
                    (case add_user s (form rq ''name'') (form rq ''last_name'')
                            (form rq ''email'') password_hashed DETECTIVE_ROLE
                            (form rq ''detective_id'') False of
                       Inl x \<Rightarrow> Inl x
                     | Inr s' \<Rightarrow> Inr (Redirect Login_new_user, s'))))
      | HEAD \<Rightarrow> Inl NoResponse)"

text \<open>\<open>login_user(user)\<close> stores the user's id in the session.\<close>

definition login_user :: "User \<Rightarrow> state \<Rightarrow> state" where
  "login_user u s = s\<lparr>session := Some (user_id u)\<rparr>"

definition login :: "env \<Rightarrow> request \<Rightarrow> state \<Rightarrow> result" where
  "login ev rq s =
     (if is_authenticated s then Inr (Redirect Index, s)
      else case request_method rq of
        GET \<Rightarrow> Inr (Render Login_html, s)
      | POST \<Rightarrow>
          (case first_by_email s (form rq ''email'') of
             None \<Rightarrow> Inr (Redirect Login, s)
           | Some u \<Rightarrow>
               (case check_password_hash ev (password u) (form rq ''password'') of
                  Inl x \<Rightarrow> Inl x
                | Inr matches \<Rightarrow>
                    if matches then
                      (if approved u then Inr (Redirect Index, login_user u s)
                       else Inr (Redirect Login, s))
                    else Inr (Redirect Login, s)))
      | HEAD \<Rightarrow> Inl NoResponse)"

definition logout :: "state \<Rightarrow> result" where
  "logout = login_required (\<lambda>cu s. Inr (Redirect Index, s\<lparr>session := None\<rparr>))"

text \<open>\<open>current_user.role in [DETECTIVE_ROLE, BOSS_ROLE]\<close>.\<close>

definition staff :: "User \<Rightarrow> bool" where
  "staff cu = (role cu = Some DETECTIVE_ROLE \<or> role cu = Some BOSS_ROLE)"

definition users :: "state \<Rightarrow> result" where
  "users = login_required (\<lambda>cu s.
     if \<not> staff cu then Inr (Redirect Index, s)
     else Inr (Render (Users_html (db_users s) False), s))"

text \<open>
  The POST branch of \<open>user_page\<close> assigns to the attributes of the looked-up row with no
  check that there is one, and commits the three form fields.
\<close>

definition set_user_fields :: "int \<Rightarrow> string \<Rightarrow> string option \<Rightarrow> string \<Rightarrow> User \<Rightarrow> User" where
  "set_user_fields i n ln e u =
     (if user_id u = i then u\<lparr>name := n, last_name := ln, email := e\<rparr> else u)"

definition user_page :: "int \<Rightarrow> request \<Rightarrow> state \<Rightarrow> result" where
  "user_page target rq = login_required (\<lambda>cu s.
     case request_method rq of
       GET \<Rightarrow>
         (case load_user s target of
            None \<Rightarrow> Inr (Abort 404, s)
          | Some u \<Rightarrow>
              if staff cu \<or> eq_user cu (Some u) then Inr (Render (User_page_html u), s)
              else Inr (Redirect Index, s))
     | POST \<Rightarrow>
         (case load_user s target of
            None \<Rightarrow> Inl AttributeError
          | Some u \<Rightarrow>
              (case form rq ''name'' of
                 None \<Rightarrow> Inl IntegrityError
               | Some n \<Rightarrow>
                   (case form rq ''email'' of
                      None \<Rightarrow> Inl IntegrityError
                    | Some e \<Rightarrow>
                        Inr (Redirect (User_page target),
                             s\<lparr>db_users :=
                                 map (set_user_fields target n (form rq ''last_name'') e)
                                   (db_users s)\<rparr>))))
     | HEAD \<Rightarrow> Inl NoResponse)"

text \<open>
  \<open>db.session.delete(user)\<close>: the row goes. The relationship \<open>cases\<close> is declared
  with no delete cascade and \<open>uid\<close> is nullable, so the user's cases stay in their
  table and SQLAlchemy sets their \<open>uid\<close> to NULL when it flushes the deletion.
\<close>

definition orphan :: "int \<Rightarrow> Case \<Rightarrow> Case" where
  "orphan i k = (if uid k = Some i then k\<lparr>uid := None\<rparr> else k)"

definition session_delete_user :: "int \<Rightarrow> state \<Rightarrow> state" where
  "session_delete_user i s =
     s\<lparr>db_users := filter (\<lambda>u. user_id u \<noteq> i) (db_users s),
       db_cases := map (orphan i) (db_cases s)\<rparr>"

definition delete_user :: "int \<Rightarrow> request \<Rightarrow> state \<Rightarrow> result" where
  "delete_user target rq = login_required (\<lambda>cu s.
     case request_method rq of
       GET \<Rightarrow> Inr (Redirect Index, s)
     | POST \<Rightarrow>
         if role cu \<noteq> Some BOSS_ROLE then Inr (Redirect Index, s)
         else (case load_user s target of
                 Some u \<Rightarrow> Inr (Redirect Users, session_delete_user target s)
               | None \<Rightarrow> Inr (Redirect Index, s))
     | HEAD \<Rightarrow> Inl NoResponse)"

definition approvals :: "state \<Rightarrow> result" where
  "approvals = login_required (\<lambda>cu s.
     if role cu \<noteq> Some BOSS_ROLE then Inr (Redirect Index, s)
     else Inr (Render (Users_html (filter (\<lambda>u. \<not> approved u) (db_users s)) True), s))"

text \<open>
  The approval message. An f-string prints \<open>None\<close> for an unset \<open>DOMAIN\<close>, and the two
  adjacent literals are joined with nothing between them.
\<close>

definition approval_message :: "env \<Rightarrow> User \<Rightarrow> email_message" where
  "approval_message ev u =
     \<lparr>subject = ''Account approved'',
      body = ''Your account has been approved!'' @ ''Login to use the website: '' @
             (case DOMAIN ev of None \<Rightarrow> ''None'' | Some d \<Rightarrow> d) @ ''/login'',
      from_email = EMAIL_ACCOUNT ev,
      recipients = [email u]\<rparr>"

text \<open>
  The \<open>try\<close>/\<open>except\<close> of \<open>approve\<close>: \<open>send\<close> is called once on the message; when
  it raises, the bare \<open>except\<close> prints a line and goes on.
\<close>

definition try_send :: "env \<Rightarrow> email_message \<Rightarrow> state \<Rightarrow> state" where
  "try_send ev msg s =
     (if send_ok ev msg then s\<lparr>send_calls := send_calls s @ [msg]\<rparr>
      else s\<lparr>send_calls := send_calls s @ [msg], stdout := stdout s @ [Email_settings_warning]\<rparr>)"

definition set_approved :: "int \<Rightarrow> User \<Rightarrow> User" where
  "set_approved i u = (if user_id u = i then u\<lparr>approved := True\<rparr> else u)"

definition approve :: "env \<Rightarrow> int \<Rightarrow> request \<Rightarrow> state \<Rightarrow> result" where
  "approve ev target rq = login_required (\<lambda>cu s.
     case request_method rq of
       GET \<Rightarrow> Inr (Redirect Index, s)
     | POST \<Rightarrow>
         if role cu \<noteq> Some BOSS_ROLE then Inr (Redirect Index, s)
         else (case load_user s target of
                 Some u \<Rightarrow>
                   Inr (Redirect Approvals,
                        try_send ev (approval_message ev u)
                          (s\<lparr>db_users := map (set_approved target) (db_users s)\<rparr>))
               | None \<Rightarrow> Inr (Redirect Index, s))
     | HEAD \<Rightarrow> Inl NoResponse)"

text \<open>\<open>db.session.add(Case(...)); db.session.commit()\<close>: title and content are NOT NULL.\<close>

definition add_case ::
  "state \<Rightarrow> int \<Rightarrow> string option \<Rightarrow> string option \<Rightarrow> string option \<Rightarrow> error + state" where
  "add_case s owner t d c =
     (case t of
        None \<Rightarrow> Inl IntegrityError
      | Some t' \<Rightarrow>
          (case c of
             None \<Rightarrow> Inl IntegrityError
           | Some c' \<Rightarrow>
               Inr (s\<lparr>db_cases := db_cases s @
                 [\<lparr>case_id = new_id (map case_id (db_cases s)), uid = Some owner,
                   title = t', description = d, content = c'\<rparr>]\<rparr>)))"

definition new_case :: "request \<Rightarrow> state \<Rightarrow> result" where
  "new_case rq = login_required (\<lambda>cu s.
     if \<not> staff cu then Inr (Redirect Index, s)
     else case request_method rq of
       GET \<Rightarrow> Inr (Render New_case_html, s)
     | POST \<Rightarrow>
         (case add_case s (user_id cu) (form rq ''title'') (form rq ''description'')
                 (form rq ''content'') of
            Inl x \<Rightarrow> Inl x
          | Inr s' \<Rightarrow> Inr (Redirect Index, s'))
     | HEAD \<Rightarrow> Inl NoResponse)"

definition set_case_fields :: "int \<Rightarrow> string \<Rightarrow> string option \<Rightarrow> string \<Rightarrow> Case \<Rightarrow> Case" where
  "set_case_fields c t d x k =
     (if case_id k = c then k\<lparr>title := t, description := d, content := x\<rparr> else k)"

definition case_page :: "int \<Rightarrow> request \<Rightarrow> state \<Rightarrow> result" where
  "case_page cid rq = login_required (\<lambda>cu s.
     case request_method rq of
       GET \<Rightarrow>
         (case find_case s cid of
            None \<Rightarrow> Inr (Abort 404, s)
          | Some k \<Rightarrow> Inr (Render (Case_page_html k), s))
     | POST \<Rightarrow>
         (case find_case s cid of
            None \<Rightarrow> Inl AttributeError
          | Some k \<Rightarrow>
              (case form rq ''title'' of
                 None \<Rightarrow> Inl IntegrityError
               | Some t \<Rightarrow>
                   (case form rq ''content'' of
                      None \<Rightarrow> Inl IntegrityError
                    | Some x \<Rightarrow>
                        Inr (Redirect (Case_page cid),
                             s\<lparr>db_cases :=
                                 map (set_case_fields cid t (form rq ''description'') x)
                                   (db_cases s)\<rparr>))))
     | HEAD \<Rightarrow> Inl NoResponse)"

text \<open>
  The condition of \<open>delete_case\<close> is
  \<open>(current_user.role == BOSS_ROLE or current_user == case_to_delete.user) and case_to_delete\<close>.
  Python evaluates it from the left: for a Boss the \<open>or\<close> is settled by its first
  operand; for anyone else \<open>case_to_delete.user\<close> is read before \<open>case_to_delete\<close> is
  tested, which raises when the lookup returned \<open>None\<close>.
\<close>

definition may_delete :: "User \<Rightarrow> state \<Rightarrow> Case option \<Rightarrow> error + bool" where
  "may_delete cu s case_to_delete =
     (if role cu = Some BOSS_ROLE then Inr True
      else case case_to_delete of
             None \<Rightarrow> Inl AttributeError
           | Some k \<Rightarrow> Inr (eq_user cu (case_user s k)))"

definition delete_case :: "int \<Rightarrow> request \<Rightarrow> state \<Rightarrow> result" where
  "delete_case cid rq = login_required (\<lambda>cu s.
     case request_method rq of
       GET \<Rightarrow> Inr (Redirect Index, s)
     | POST \<Rightarrow>
         (case may_delete cu s (find_case s cid) of
            Inl x \<Rightarrow> Inl x
          | Inr allowed \<Rightarrow>
              if allowed \<and> find_case s cid \<noteq> None then
                Inr (Redirect Index,
                     s\<lparr>db_cases := filter (\<lambda>k. case_id k \<noteq> cid) (db_cases s)\<rparr>)
              else Inr (Redirect Index, s))
     | HEAD \<Rightarrow> Inl NoResponse)"

section \<open>Routing and sequences of requests\<close>

text \<open>The thirteen \<open>@app.route\<close> rules, with the id of the path where there is one.\<close>

datatype route =
    Route_index
  | Route_register_guest
  | Route_register_detective
  | Route_login
  | Route_logout
  | Route_users
  | Route_user_page int
  | Route_delete_user int
  | Route_approvals
  | Route_approve int
  | Route_new_case
  | Route_case_page int
  | Route_delete_case int

text \<open>
  A rule without \<open>methods=\<close> accepts GET and HEAD only: a POST is answered 405 by the
  router and the view function does not run.
\<close>

definition get_only :: "(state \<Rightarrow> result) \<Rightarrow> request \<Rightarrow> state \<Rightarrow> result" where
  "get_only view rq s = (if request_method rq = POST then Inr (Abort 405, s) else view s)"

definition dispatch :: "env \<Rightarrow> route \<Rightarrow> request \<Rightarrow> state \<Rightarrow> result" where
  "dispatch ev rt rq =
     (case rt of
        Route_index \<Rightarrow> get_only index rq
      | Route_register_guest \<Rightarrow> register_guest ev rq
      | Route_register_detective \<Rightarrow> register_detective ev rq
      | Route_login \<Rightarrow> login ev rq
      | Route_logout \<Rightarrow> get_only logout rq
      | Route_users \<Rightarrow> get_only users rq
      | Route_user_page i \<Rightarrow> user_page i rq
      | Route_delete_user i \<Rightarrow> delete_user i rq
      | Route_approvals \<Rightarrow> get_only approvals rq
      | Route_approve i \<Rightarrow> approve ev i rq
      | Route_new_case \<Rightarrow> new_case rq
      | Route_case_page c \<Rightarrow> case_page c rq
      | Route_delete_case c \<Rightarrow> delete_case c rq)"

text \<open>
  One request of one client: the user id its session cookie holds, the route and the
  request. An uncaught exception commits nothing; otherwise the client leaves with the
  response and the session the handler left.
\<close>

record visit =
  client :: "int option"
  route :: route
  req :: request

datatype outcome = Failed error | Served response "int option"

definition step :: "env \<Rightarrow> state \<Rightarrow> visit \<Rightarrow> state \<times> outcome" where
  "step ev s v =
     (case dispatch ev (route v) (req v) (s\<lparr>session := client v\<rparr>) of
        Inl x \<Rightarrow> (s, Failed x)
      | Inr (r, s') \<Rightarrow> (s', Served r (session s')))"

text \<open>The visit is a POST to the approve route of user \<open>i\<close> made by an actor whose role is Boss.\<close>

definition boss_approves :: "state \<Rightarrow> visit \<Rightarrow> int \<Rightarrow> bool" where
  "boss_approves s v i =
     (route v = Route_approve i \<and> request_method (req v) = POST \<and>
      (case current_user (s\<lparr>session := client v\<rparr>) of
         None \<Rightarrow> False
       | Some cu \<Rightarrow> role cu = Some BOSS_ROLE))"

text \<open>The client leaves with a session for user \<open>i\<close> that it did not come with.\<close>

definition gets_session :: "visit \<Rightarrow> outcome \<Rightarrow> int \<Rightarrow> bool" where
  "gets_session v out i =
     (case out of Failed x \<Rightarrow> False | Served r c \<Rightarrow> c = Some i \<and> client v \<noteq> Some i)"

text \<open>
  Along a sequence of visits, no client gets a session for user \<open>i\<close> up to the first
  approval of \<open>i\<close> by a Boss, for as long as the row of \<open>i\<close> is in the table.
\<close>

fun no_session_before_approval :: "env \<Rightarrow> int \<Rightarrow> state \<Rightarrow> visit list \<Rightarrow> bool" where
  "no_session_before_approval ev i s [] = True"
| "no_session_before_approval ev i s (v # vs) =
     (if boss_approves s v i then True
      else case step ev s v of
             (s', out) \<Rightarrow>
               \<not> gets_session v out i \<and>
               (load_user s' i = None \<or> no_session_before_approval ev i s' vs))"

text \<open>The primary key of the users table: no two rows share an id.\<close>

definition users_keyed :: "state \<Rightarrow> bool" where
  "users_keyed s = distinct (map user_id (db_users s))"

text \<open>The state a sequence of visits leaves.\<close>

fun run :: "env \<Rightarrow> state \<Rightarrow> visit list \<Rightarrow> state" where
  "run ev s [] = s"
| "run ev s (v # vs) = run ev (fst (step ev s v)) vs"

text \<open>
  The state a sequence of visits leaves, provided the row of user \<open>i\<close> is in the table
  before every visit and at the end.
\<close>

fun run_while_present :: "env \<Rightarrow> int \<Rightarrow> state \<Rightarrow> visit list \<Rightarrow> state option" where
  "run_while_present ev i s [] = (if load_user s i = None then None else Some s)"
| "run_while_present ev i s (v # vs) =
     (if load_user s i = None then None else run_while_present ev i (fst (step ev s v)) vs)"

section \<open>The role matrix\<close>



text \<open>Whether a handler answered with a rendered page.\<close>

definition renders :: "result \<Rightarrow> bool" where
  "renders res = (case res of Inr (Render t, s) \<Rightarrow> True | _ \<Rightarrow> False)"

section \<open>A small agency, for evaluating the handlers\<close>

text \<open>
  A password library that refuses a missing or empty password and otherwise tags it, a
  mail server that always fails, and a table with a Boss, a Detective and a Guest, the
  Detective owning the only case.
\<close>

definition demo_env :: env where
  "demo_env =
     \<lparr>generate_password_hash =
        (\<lambda>p. case p of None \<Rightarrow> Inl LibraryError
              | Some x \<Rightarrow> if x = [] then Inl LibraryError else Inr (''h:'' @ x)),
      check_password_hash =
        (\<lambda>h p. case p of None \<Rightarrow> Inl LibraryError | Some x \<Rightarrow> Inr (h = ''h:'' @ x)),
      send_ok = (\<lambda>m. False),
      DOMAIN = Some ''agency.example'',
      EMAIL_ACCOUNT = None\<rparr>"

definition boss :: User where
  "boss = \<lparr>user_id = 1, name = ''Admin'', last_name = None, password = ''h:1234'',
           email = ''admin@email.com'', role = Some BOSS_ROLE, detective_id = None,
           approved = True\<rparr>"

definition alice :: User where
  "alice = \<lparr>user_id = 2, name = ''Alice'', last_name = None, password = ''h:pw'',
            email = ''alice@x.com'', role = Some DETECTIVE_ROLE, detective_id = Some ''D7'',
            approved = False\<rparr>"

definition bob :: User where
  "bob = \<lparr>user_id = 3, name = ''Bob'', last_name = None, password = ''h:bob'',
          email = ''bob@x.com'', role = Some GUEST_ROLE, detective_id = None,
          approved = True\<rparr>"

definition case1 :: Case where
  "case1 = \<lparr>case_id = 1, uid = Some 2, title = ''Case1'', description = None,
            content = ''notes''\<rparr>"

definition agency :: "int option \<Rightarrow> state" where
  "agency who = \<lparr>db_users = [boss, alice, bob], db_cases = [case1], session = who,
                 send_calls = [], stdout = []\<rparr>"

definition fields :: "(string \<times> string) list \<Rightarrow> string \<Rightarrow> string option" where
  "fields kvs = map_of kvs"

definition get :: request where
  "get = \<lparr>request_method = GET, form = fields []\<rparr>"

definition post :: "(string \<times> string) list \<Rightarrow> request" where
  "post kvs = \<lparr>request_method = POST, form = fields kvs\<rparr>"

section \<open>Effects of a request\<close>

text \<open>
  What one request can do to the users table: nothing, one new row with a new key, an
  edit of name and email, the deletion of a row by a Boss, or the approval of a row by
  a Boss. And to the session: nothing, a logout, or a login as an approved user.
\<close>

definition users_effect :: "env \<Rightarrow> route \<Rightarrow> request \<Rightarrow> state \<Rightarrow> state \<Rightarrow> bool" where
  "users_effect ev rt rq s s' =
     (db_users s' = db_users s \<or>
      (\<exists>u. db_users s' = db_users s @ [u] \<and> user_id u = new_id (map user_id (db_users s))) \<or>
      (\<exists>j n ln e. db_users s' = map (set_user_fields j n ln e) (db_users s)) \<or>
      (\<exists>j cu. rt = Route_delete_user j \<and> current_user s = Some cu \<and>
              role cu = Some BOSS_ROLE \<and>
              db_users s' = filter (\<lambda>u. user_id u \<noteq> j) (db_users s)) \<or>
      (\<exists>j cu. rt = Route_approve j \<and> request_method rq = POST \<and> current_user s = Some cu \<and>
              role cu = Some BOSS_ROLE \<and>
              db_users s' = map (set_approved j) (db_users s)))"

definition session_effect :: "state \<Rightarrow> state \<Rightarrow> bool" where
  "session_effect s s' =
     (session s' = session s \<or> session s' = None \<or>
      (\<exists>u. u \<in> set (db_users s) \<and> approved u \<and> session s' = Some (user_id u)))"

section \<open>More of the small agency\<close>

text \<open>
  A fourth user, Carol, as her detective registration creates her; the agency with her
  row; the agency after the Boss has approved her; and a sequence of visits in between.
\<close>

definition carol :: User where
  "carol = \<lparr>user_id = 4, name = ''Carol'', last_name = None, password = ''h:cpw'',
            email = ''carol@x.com'', role = Some DETECTIVE_ROLE, detective_id = Some ''D9'',
            approved = False\<rparr>"

definition visit_by :: "int option \<Rightarrow> route \<Rightarrow> request \<Rightarrow> visit" where
  "visit_by c rt rq = \<lparr>client = c, route = rt, req = rq\<rparr>"

definition carol_form :: request where
  "carol_form = post [(''name'', ''Carol''), (''email'', ''carol@x.com''),
                      (''password'', ''cpw''), (''detective_id'', ''D9'')]"

definition carol_login :: request where
  "carol_login = post [(''email'', ''carol@x.com''), (''password'', ''cpw'')]"

definition with_carol :: state where
  "with_carol = (agency None)\<lparr>db_users := [boss, alice, bob, carol]\<rparr>"

definition carol_approved :: state where
  "carol_approved =
     \<lparr>db_users = [boss, alice, bob, carol\<lparr>approved := True\<rparr>], db_cases = [case1],
      session = Some 1, send_calls = [approval_message demo_env carol],
      stdout = [Email_settings_warning]\<rparr>"

definition visits :: "visit list" where
  "visits =
     [visit_by None Route_login carol_login,
      visit_by None Route_login (post [(''email'', ''bob@x.com''), (''password'', ''bob'')]),
      visit_by (Some 3) (Route_user_page 4)
        (post [(''name'', ''Carol''), (''email'', ''carol@x.com'')]),
      visit_by (Some 3) Route_index get,
      visit_by (Some 1) (Route_approve 4) (post []),
      visit_by None Route_login carol_login]"

definition edit_form :: "(string \<times> string) list" where
  "edit_form = [(''name'', ''N''), (''email'', ''n@x.com''), (''title'', ''T''), (''content'', ''X'')]"

text \<open>
  Visits for three more sequences. In the first, Bob logs in and puts Carol's email on
  his own row before the Boss approves Carol. In the second, Bob logs in, the Boss
  deletes Bob, and Dave's detective registration is given the key Bob had. In the third,
  after Carol's approval, Bob logs in and edits his own name.
\<close>

definition bob_login :: visit where
  "bob_login = visit_by None Route_login (post [(''email'', ''bob@x.com''), (''password'', ''bob'')])"

definition boss_login :: visit where
  "boss_login =
     visit_by None Route_login (post [(''email'', ''admin@email.com''), (''password'', ''1234'')])"

definition lockout_visits :: "visit list" where
  "lockout_visits =
     [bob_login,
      visit_by (Some 3) (Route_user_page 3) (post [(''name'', ''Bob''), (''email'', ''carol@x.com'')]),
      boss_login,
      visit_by (Some 1) (Route_approve 4) (post [])]"

definition dave_form :: request where
  "dave_form = post [(''name'', ''Dave''), (''email'', ''dave@x.com''), (''password'', ''dpw'')]"

definition dave :: User where
  "dave = \<lparr>user_id = 3, name = ''Dave'', last_name = None, password = ''h:dpw'',
           email = ''dave@x.com'', role = Some DETECTIVE_ROLE, detective_id = None,
           approved = False\<rparr>"

definition stale_visits :: "visit list" where
  "stale_visits =
     [bob_login,
      boss_login,
      visit_by (Some 1) (Route_delete_user 3) (post []),
      visit_by None Route_register_detective dave_form]"

definition later_visits :: "visit list" where
  "later_visits =
     [bob_login,
      visit_by (Some 3) (Route_user_page 3) (post [(''name'', ''Robert''), (''email'', ''bob@x.com'')])]"

definition carol_later :: state where
  "carol_later =
     \<lparr>db_users = [boss, alice, bob\<lparr>name := ''Robert''\<rparr>, carol\<lparr>approved := True\<rparr>],
      db_cases = [case1], session = Some 3,
      send_calls = [approval_message demo_env carol], stdout = [Email_settings_warning]\<rparr>"

section \<open>Lemmas on the queries\<close>

lemmas demo_defs = agency_def boss_def alice_def bob_def case1_def demo_env_def get_def post_def
  fields_def GUEST_ROLE_def DETECTIVE_ROLE_def BOSS_ROLE_def

lemmas query_defs = load_user_def first_by_email_def find_case_def case_user_def
  current_user_def is_authenticated_def eq_user_def

lemmas carol_defs = carol_form_def carol_login_def with_carol_def carol_approved_def visits_def
  visit_by_def carol_def

lemmas handler_defs = dispatch_def get_only_def index_def register_guest_def
  register_detective_def login_def login_user_def logout_def users_def user_page_def
  delete_user_def approvals_def approve_def new_case_def case_page_def delete_case_def
  login_required_def staff_def add_user_def add_case_def may_delete_def try_send_def
  session_delete_user_def

lemmas trace_defs = bob_login_def boss_login_def lockout_visits_def dave_form_def dave_def
  stale_visits_def later_visits_def carol_later_def

lemma load_user_id: "load_user s i = Some u \<Longrightarrow> user_id u = i"
  by (auto simp: load_user_def find_Some_iff)

lemma load_user_mem: "load_user s i = Some u \<Longrightarrow> u \<in> set (db_users s)"
  by (auto simp: load_user_def find_Some_iff)

lemma first_by_email_found:
  "u \<in> set (db_users s) \<Longrightarrow> \<exists>w. first_by_email s (Some (email u)) = Some w"
  by (cases "find (\<lambda>w. email w = email u) (db_users s)")
    (auto simp: first_by_email_def find_None_iff)

lemma find_map_set_approved:
  "find (\<lambda>u. user_id u = i) xs = Some u \<Longrightarrow>
   find (\<lambda>u. user_id u = i) (map (set_approved i) xs) = Some (u\<lparr>approved := True\<rparr>)"
  by (induction xs) (auto simp: set_approved_def split: if_splits)

lemma find_filter_out: "find (\<lambda>x. f x = i) (filter (\<lambda>x. f x \<noteq> i) xs) = None"
  by (simp add: find_None_iff)

section \<open>Deleting what is not there\<close>

text \<open>
  Claim C1. A POST to a delete endpoint for an id that is not in storage should be a
  redirect with no change, whoever asks. For \<open>delete_user\<close> it is, and for
  \<open>delete_case\<close> it is when the actor is a Boss. For any other actor \<open>delete_case\<close>
  reads \<open>case_to_delete.user\<close> on \<open>None\<close>: the Detective of the small agency posting
  to the delete route of case 7, which does not exist, gets an \<open>AttributeError\<close>.
\<close>

theorem delete_case_missing_not_boss:
  "delete_case 7 (post []) (agency (Some 2)) = Inl AttributeError"
  by (simp add: delete_case_def login_required_def may_delete_def query_defs demo_defs)

lemma delete_user_missing:
  assumes "current_user s = Some cu" and "request_method rq = POST" and "load_user s i = None"
  shows "delete_user i rq s = Inr (Redirect Index, s)"
  using assms by (simp add: delete_user_def login_required_def)

lemma delete_case_missing_boss:
  assumes "current_user s = Some cu" and "request_method rq = POST" and "find_case s c = None"
    and "role cu = Some BOSS_ROLE"
  shows "delete_case c rq s = Inr (Redirect Index, s)"
  using assms by (simp add: delete_case_def login_required_def may_delete_def)

lemma delete_case_missing_other:
  assumes "current_user s = Some cu" and "request_method rq = POST" and "find_case s c = None"
    and "role cu \<noteq> Some BOSS_ROLE"
  shows "delete_case c rq s = Inl AttributeError"
  using assms by (simp add: delete_case_def login_required_def may_delete_def)

section \<open>Handlers against the role matrix\<close>







section \<open>Registration\<close>

text \<open>
  Both handlers hash the password before they look the email up, and both begin with the
  guard that sends an authenticated user to the home page. With a password library that
  refuses a missing password, as Flask-Bcrypt does, a registration with Bob's email and
  no password field is an uncaught exception; and posted by the logged-in Bob it is a
  redirect to the home page. Neither re-renders the form.
\<close>

theorem duplicate_email_not_always_rerendered:
  "register_guest demo_env (post [(''email'', ''bob@x.com'')]) (agency None) =
     Inl LibraryError \<and>
   register_detective demo_env (post [(''email'', ''bob@x.com'')]) (agency None) =
     Inl LibraryError \<and>
   register_guest demo_env (post [(''email'', ''bob@x.com''), (''password'', ''x'')])
       (agency (Some 3)) = Inr (Redirect Index, agency (Some 3)) \<and>
   register_detective demo_env (post [(''email'', ''bob@x.com''), (''password'', ''x'')])
       (agency (Some 3)) = Inr (Redirect Index, agency (Some 3))"
  by (simp add: register_guest_def register_detective_def query_defs demo_defs)

text \<open>
  Claim C3, amended. An anonymous POST to either registration route whose email is the
  email of a stored user, and whose password the hashing call accepts, gets the
  registration form back with the duplicate-email error, and the state is the one it
  started from.
\<close>

theorem register_duplicate_email:
  assumes "\<not> is_authenticated s" and "request_method rq = POST"
    and "u \<in> set (db_users s)" and "form rq ''email'' = Some (email u)"
    and "generate_password_hash ev (form rq ''password'') = Inr h"
  shows "register_guest ev rq s =
           Inr (Render (Register_html ''register_guest'' (Some SAME_EMAIL_ERROR)), s) \<and>
         register_detective ev rq s =
           Inr (Render (Register_html ''register_detective'' (Some SAME_EMAIL_ERROR)), s)"
proof -
  obtain w where "first_by_email s (form rq ''email'') = Some w"
    using first_by_email_found [OF assms(3)] assms(4) by auto
  with assms show ?thesis
    by (simp add: register_guest_def register_detective_def)
qed

theorem register_duplicate_email_witness:
  "register_guest demo_env (post [(''email'', ''bob@x.com''), (''password'', ''x'')]) (agency None) =
     Inr (Render (Register_html ''register_guest'' (Some SAME_EMAIL_ERROR)), agency None) \<and>
   register_detective demo_env (post [(''email'', ''bob@x.com''), (''password'', ''x'')])
       (agency None) =
     Inr (Render (Register_html ''register_detective'' (Some SAME_EMAIL_ERROR)), agency None)"
proof -
  let ?rq = "post [(''email'', ''bob@x.com''), (''password'', ''x'')]"
  have a: "\<not> is_authenticated (agency None)" "request_method ?rq = POST"
    "bob \<in> set (db_users (agency None))" "form ?rq ''email'' = Some (email bob)"
    "generate_password_hash demo_env (form ?rq ''password'') = Inr ''h:x''"
    by (simp_all add: query_defs demo_defs)
  show ?thesis by (rule register_duplicate_email [OF a])
qed



section \<open>Login\<close>

text \<open>
  The password check runs only for a known email, and it may raise. With a password
  library that refuses a missing password, a login with Bob's email and no password
  field is an uncaught exception, while the same form with an unknown email is the
  redirect to the login page. And a login posted by a client that is already logged in
  is sent to the home page, whatever it submits.
\<close>

theorem login_failure_by_exception:
  "login demo_env (post [(''email'', ''bob@x.com'')]) (agency None) = Inl LibraryError \<and>
   login demo_env (post [(''email'', ''nobody@x.com'')]) (agency None) =
     Inr (Redirect Login, agency None) \<and>
   login demo_env (post [(''email'', ''nobody@x.com'')]) (agency (Some 3)) =
     Inr (Redirect Index, agency (Some 3))"
  by (simp add: login_def query_defs demo_defs)

lemma login_returns:
  assumes "\<not> is_authenticated s" and "request_method rq = POST"
    and "login ev rq s = Inr (r, s')"
  shows "(r = Redirect Login \<and> s' = s) \<or>
         (\<exists>u. first_by_email s (form rq ''email'') = Some u \<and>
              check_password_hash ev (password u) (form rq ''password'') = Inr True \<and>
              approved u \<and> r = Redirect Index \<and> s' = login_user u s)"
  using assms by (auto simp: login_def split: option.splits sum.splits if_splits)

text \<open>
  Claim C6, amended. An anonymous POST to the login route on which the password check,
  where it runs, returns a verdict, and that fails because no user has the email,
  because the password does not match, or because the user is not approved, gets in
  each case the same answer: a redirect to the login page, the state unchanged. Every
  answer the handler returns, other than the successful login of an approved user whose
  password matched, is that redirect.
\<close>

theorem login_failures_same_redirect:
  assumes "\<not> is_authenticated s" and "request_method rq = POST"
  shows "(first_by_email s (form rq ''email'') = None \<longrightarrow>
            login ev rq s = Inr (Redirect Login, s)) \<and>
         (first_by_email s (form rq ''email'') = Some u \<and>
          check_password_hash ev (password u) (form rq ''password'') = Inr False \<longrightarrow>
            login ev rq s = Inr (Redirect Login, s)) \<and>
         (first_by_email s (form rq ''email'') = Some u \<and>
          check_password_hash ev (password u) (form rq ''password'') = Inr True \<and>
          \<not> approved u \<longrightarrow>
            login ev rq s = Inr (Redirect Login, s)) \<and>
         (login ev rq s = Inr (r, s') \<longrightarrow>
            (r = Redirect Login \<and> s' = s) \<or>
            (\<exists>w. first_by_email s (form rq ''email'') = Some w \<and>
                 check_password_hash ev (password w) (form rq ''password'') = Inr True \<and>
                 approved w \<and> r = Redirect Index \<and> s' = login_user w s))"
proof (intro conjI)
  show "first_by_email s (form rq ''email'') = None \<longrightarrow>
          login ev rq s = Inr (Redirect Login, s)"
    using assms by (simp add: login_def)
  show "first_by_email s (form rq ''email'') = Some u \<and>
        check_password_hash ev (password u) (form rq ''password'') = Inr False \<longrightarrow>
          login ev rq s = Inr (Redirect Login, s)"
    using assms by (simp add: login_def)
  show "first_by_email s (form rq ''email'') = Some u \<and>
        check_password_hash ev (password u) (form rq ''password'') = Inr True \<and>
        \<not> approved u \<longrightarrow>
          login ev rq s = Inr (Redirect Login, s)"
    using assms by (simp add: login_def)
  show "login ev rq s = Inr (r, s') \<longrightarrow>
          (r = Redirect Login \<and> s' = s) \<or>
          (\<exists>w. first_by_email s (form rq ''email'') = Some w \<and>
               check_password_hash ev (password w) (form rq ''password'') = Inr True \<and>
               approved w \<and> r = Redirect Index \<and> s' = login_user w s)"
    using login_returns [OF assms] by blast
qed

theorem login_failures_same_redirect_witness:
  "login demo_env (post [(''email'', ''nobody@x.com''), (''password'', ''pw'')]) (agency None) =
     Inr (Redirect Login, agency None) \<and>
   login demo_env (post [(''email'', ''bob@x.com''), (''password'', ''pw'')]) (agency None) =
     Inr (Redirect Login, agency None) \<and>
   login demo_env (post [(''email'', ''alice@x.com''), (''password'', ''pw'')]) (agency None) =
     Inr (Redirect Login, agency None) \<and>
   login demo_env (post [(''email'', ''bob@x.com''), (''password'', ''bob'')]) (agency None) =
     Inr (Redirect Index, agency (Some 3)) \<and>
   first_by_email (agency None) (Some ''bob@x.com'') = Some bob \<and> approved bob"
proof -
  let ?n = "post [(''email'', ''nobody@x.com''), (''password'', ''pw'')]"
  let ?b = "post [(''email'', ''bob@x.com''), (''password'', ''pw'')]"
  let ?a = "post [(''email'', ''alice@x.com''), (''password'', ''pw'')]"
  let ?g = "post [(''email'', ''bob@x.com''), (''password'', ''bob'')]"
  have anon: "\<not> is_authenticated (agency None)"
    by (simp add: query_defs demo_defs)
  have m: "request_method ?n = POST" "request_method ?b = POST" "request_method ?a = POST"
    "request_method ?g = POST"
    by (simp_all add: post_def)
  have n: "first_by_email (agency None) (form ?n ''email'') = None"
    by (simp add: query_defs demo_defs)
  have b: "first_by_email (agency None) (form ?b ''email'') = Some bob"
    "check_password_hash demo_env (password bob) (form ?b ''password'') = Inr False"
    by (simp_all add: query_defs demo_defs)
  have a: "first_by_email (agency None) (form ?a ''email'') = Some alice"
    "check_password_hash demo_env (password alice) (form ?a ''password'') = Inr True"
    "\<not> approved alice"
    by (simp_all add: query_defs demo_defs)
  have g: "login demo_env ?g (agency None) = Inr (Redirect Index, agency (Some 3))"
    "first_by_email (agency None) (form ?g ''email'') = Some bob" "approved bob"
    "form ?g ''email'' = Some ''bob@x.com''" "login_user bob (agency None) = agency (Some 3)"
    by (simp_all add: login_def login_user_def query_defs demo_defs)
  from login_failures_same_redirect [OF anon m(1), of demo_env bob "Redirect Login" "agency None"] n
  have 1: "login demo_env ?n (agency None) = Inr (Redirect Login, agency None)" by simp
  from login_failures_same_redirect [OF anon m(2), of demo_env bob "Redirect Login" "agency None"] b
  have 2: "login demo_env ?b (agency None) = Inr (Redirect Login, agency None)" by simp
  from login_failures_same_redirect [OF anon m(3), of demo_env alice "Redirect Login" "agency None"] a
  have 3: "login demo_env ?a (agency None) = Inr (Redirect Login, agency None)" by simp
  from g(2,3,4) have 4: "first_by_email (agency None) (Some ''bob@x.com'') = Some bob"
    "approved bob" by simp_all
  from 1 2 3 4 g(1) show ?thesis by simp
qed

section \<open>Approval and its notification\<close>

text \<open>
  Claim C4. When a Boss posts the approval of an existing user, \<open>send\<close> is called on
  exactly one message, the approval message for that user; whether or not the call
  fails, the user's row is committed with \<open>approved = True\<close> and the answer is the
  redirect to the pending list. A failed call only prints the warning.
\<close>

theorem approve_sends_once:
  assumes "current_user s = Some cu" and "role cu = Some BOSS_ROLE"
    and "request_method rq = POST" and "load_user s i = Some u"
  shows "\<exists>s'. approve ev i rq s = Inr (Redirect Approvals, s') \<and>
              send_calls s' = send_calls s @ [approval_message ev u] \<and>
              load_user s' i = Some (u\<lparr>approved := True\<rparr>) \<and>
              (send_ok ev (approval_message ev u) \<or>
               stdout s' = stdout s @ [Email_settings_warning])"
  using assms find_map_set_approved [of i "db_users s" u]
  by (simp add: approve_def login_required_def try_send_def load_user_def)

theorem approve_sends_once_witness:
  "\<not> send_ok demo_env (approval_message demo_env alice) \<and>
   (\<exists>s'. approve demo_env 2 (post []) (agency (Some 1)) = Inr (Redirect Approvals, s') \<and>
         send_calls s' = [approval_message demo_env alice] \<and>
         load_user s' 2 = Some (alice\<lparr>approved := True\<rparr>) \<and>
         stdout s' = [Email_settings_warning])"
proof -
  have a: "current_user (agency (Some 1)) = Some boss" "role boss = Some BOSS_ROLE"
    "request_method (post []) = POST" "load_user (agency (Some 1)) 2 = Some alice"
    by (simp_all add: query_defs demo_defs)
  have b: "\<not> send_ok demo_env (approval_message demo_env alice)"
    "send_calls (agency (Some 1)) = []" "stdout (agency (Some 1)) = []"
    by (simp_all add: demo_defs)
  from approve_sends_once [OF a, of demo_env] b show ?thesis by simp
qed

section \<open>Editing a missing record\<close>

text \<open>
  Claim C9. For an authenticated actor, a POST to the user page of an id with no user,
  or to the case page of an id with no case, is a fatal error: the attribute assignment
  on the missing row raises, and nothing before it checks.
\<close>

theorem edit_missing_target_fatal:
  assumes "current_user s = Some cu" and "request_method rq = POST"
  shows "(load_user s i = None \<longrightarrow> user_page i rq s = Inl AttributeError) \<and>
         (find_case s c = None \<longrightarrow> case_page c rq s = Inl AttributeError)"
  using assms by (simp add: user_page_def case_page_def login_required_def)

theorem edit_missing_target_fatal_witness:
  "current_user (agency (Some 3)) = Some bob \<and>
   user_page 9 (post [(''name'', ''X'')]) (agency (Some 3)) = Inl AttributeError \<and>
   case_page 9 (post [(''name'', ''X'')]) (agency (Some 3)) = Inl AttributeError"
proof -
  have a: "current_user (agency (Some 3)) = Some bob"
    by (simp add: query_defs demo_defs)
  have b: "request_method (post [(''name'', ''X'')]) = POST"
    by (simp add: post_def)
  have c: "load_user (agency (Some 3)) 9 = None" "find_case (agency (Some 3)) 9 = None"
    by (simp_all add: query_defs demo_defs)
  from edit_missing_target_fatal [OF a b, of 9 9] c a
  show ?thesis by simp
qed

section \<open>What the user page tells a Guest\<close>

text \<open>
  Claim C10. On a GET of the user page the lookup comes before the permission check. A
  Guest asking for an id other than their own gets a 404 in a state where no user has
  the id and a redirect to the home page in a state where one has, so the two answers
  differ.
\<close>

theorem user_page_get_reveals_existence:
  assumes "current_user s = Some a" and "role a = Some GUEST_ROLE" and "user_id a \<noteq> i"
    and "current_user t = Some b" and "role b = Some GUEST_ROLE" and "user_id b \<noteq> i"
    and "request_method rq = GET"
    and "load_user s i = None" and "load_user t i = Some u"
  shows "user_page i rq s = Inr (Abort 404, s) \<and>
         user_page i rq t = Inr (Redirect Index, t) \<and>
         map_sum id fst (user_page i rq s) \<noteq> map_sum id fst (user_page i rq t)"
proof -
  have "user_id u = i" using assms(9) by (rule load_user_id)
  with assms show ?thesis
    by (simp add: user_page_def login_required_def staff_def eq_user_def
        GUEST_ROLE_def DETECTIVE_ROLE_def BOSS_ROLE_def)
qed

theorem user_page_get_reveals_existence_witness:
  "user_page 2 get ((agency (Some 3))\<lparr>db_users := [boss, bob]\<rparr>) =
     Inr (Abort 404, (agency (Some 3))\<lparr>db_users := [boss, bob]\<rparr>) \<and>
   user_page 2 get (agency (Some 3)) = Inr (Redirect Index, agency (Some 3)) \<and>
   map_sum id fst (user_page 2 get ((agency (Some 3))\<lparr>db_users := [boss, bob]\<rparr>)) \<noteq>
   map_sum id fst (user_page 2 get (agency (Some 3)))"
proof -
  let ?s = "(agency (Some 3))\<lparr>db_users := [boss, bob]\<rparr>" and ?t = "agency (Some 3)"
  have a: "current_user ?s = Some bob" "current_user ?t = Some bob"
    by (simp_all add: query_defs demo_defs)
  have b: "role bob = Some GUEST_ROLE" "user_id bob \<noteq> 2" "request_method get = GET"
    by (simp_all add: demo_defs)
  have c: "load_user ?s 2 = None" "load_user ?t 2 = Some alice"
    by (simp_all add: query_defs demo_defs)
  show ?thesis
    by (rule user_page_get_reveals_existence [OF a(1) b(1) b(2) a(2) b(1) b(2) b(3) c])
qed

section \<open>Lemmas on keys and on the effects of a request\<close>

lemma fold_max_ge: "(a::int) \<le> fold max xs a"
  by (induction xs arbitrary: a) (auto intro: order_trans [OF max.cobounded2])

lemma fold_max_mem: "(x::int) \<in> set xs \<Longrightarrow> x \<le> fold max xs a"
proof (induction xs arbitrary: a)
  case Nil
  then show ?case by simp
next
  case (Cons y ys)
  show ?case
  proof (cases "x = y")
    case True
    have "y \<le> max y a" by simp
    also have "\<dots> \<le> fold max ys (max y a)" by (rule fold_max_ge)
    finally show ?thesis using True by simp
  next
    case False
    with Cons show ?thesis by simp
  qed
qed

lemma new_id_fresh: "new_id ids \<notin> set ids"
proof
  assume "new_id ids \<in> set ids"
  then have "new_id ids \<le> fold max ids 0" by (rule fold_max_mem)
  then show False by (simp add: new_id_def)
qed

lemma user_id_set_user_fields [simp]: "user_id (set_user_fields j n ln e u) = user_id u"
  by (simp add: set_user_fields_def)

lemma user_id_set_approved [simp]: "user_id (set_approved j u) = user_id u"
  by (simp add: set_approved_def)

lemma find_id_append:
  "find (\<lambda>u. user_id u = i) xs = Some w \<Longrightarrow> find (\<lambda>u. user_id u = i) (xs @ [x]) = Some w"
  by (induction xs) auto

lemma find_id_set_user_fields:
  "find (\<lambda>u. user_id u = i) xs = Some w \<Longrightarrow>
   \<exists>w'. find (\<lambda>u. user_id u = i) (map (set_user_fields j n ln e) xs) = Some w' \<and>
        approved w' = approved w"
  by (induction xs) (auto simp: set_user_fields_def)

lemma find_id_filter_other:
  "j \<noteq> i \<Longrightarrow> find (\<lambda>u. user_id u = i) (filter (\<lambda>u. user_id u \<noteq> j) xs) =
     find (\<lambda>u. user_id u = i) xs"
  by (induction xs) auto

lemma find_id_set_approved_other:
  "j \<noteq> i \<Longrightarrow> find (\<lambda>u. user_id u = i) (map (set_approved j) xs) =
     find (\<lambda>u. user_id u = i) xs"
  by (induction xs) (auto simp: set_approved_def)

lemma keyed_unique:
  assumes "distinct (map user_id xs)" and "x \<in> set xs" and "y \<in> set xs"
    and "user_id x = user_id y"
  shows "x = y"
  using assms by (meson distinct_map inj_onD)

lemma first_by_email_mem: "first_by_email s e = Some u \<Longrightarrow> u \<in> set (db_users s)"
  by (auto simp: first_by_email_def find_Some_iff split: option.splits)

lemma login_required_effect:
  assumes "\<And>cu. current_user s = Some cu \<Longrightarrow> view cu s = Inr (r, s') \<Longrightarrow> P"
    and "s' = s \<Longrightarrow> P"
    and "login_required view s = Inr (r, s')"
  shows P
  using assms by (auto simp: login_required_def split: option.splits)

lemma effect_index: "index s = Inr (r, s') \<Longrightarrow> s' = s"
  by (auto simp: index_def login_required_def split: option.splits)

lemma effect_users: "users s = Inr (r, s') \<Longrightarrow> s' = s"
  by (auto simp: users_def login_required_def split: option.splits if_splits)

lemma effect_approvals: "approvals s = Inr (r, s') \<Longrightarrow> s' = s"
  by (auto simp: approvals_def login_required_def split: option.splits if_splits)

lemma effect_logout:
  "logout s = Inr (r, s') \<Longrightarrow> db_users s' = db_users s \<and> (session s' = session s \<or> session s' = None)"
  by (auto simp: logout_def login_required_def split: option.splits)

lemma effect_register_guest:
  "register_guest ev rq s = Inr (r, s') \<Longrightarrow>
   session s' = session s \<and>
   (db_users s' = db_users s \<or>
    (\<exists>u. db_users s' = db_users s @ [u] \<and> user_id u = new_id (map user_id (db_users s))))"
  by (auto simp: register_guest_def add_user_def
      split: if_splits http_method.splits sum.splits option.splits)

lemma effect_register_detective:
  "register_detective ev rq s = Inr (r, s') \<Longrightarrow>
   session s' = session s \<and>
   (db_users s' = db_users s \<or>
    (\<exists>u. db_users s' = db_users s @ [u] \<and> user_id u = new_id (map user_id (db_users s))))"
  by (auto simp: register_detective_def add_user_def
      split: if_splits http_method.splits sum.splits option.splits)

lemma effect_login:
  "login ev rq s = Inr (r, s') \<Longrightarrow> db_users s' = db_users s \<and> session_effect s s'"
  by (auto simp: login_def login_user_def session_effect_def dest: first_by_email_mem
      split: if_splits http_method.splits sum.splits option.splits)

lemma effect_user_page:
  "user_page j rq s = Inr (r, s') \<Longrightarrow>
   session s' = session s \<and>
   (db_users s' = db_users s \<or>
    (\<exists>n ln e. db_users s' = map (set_user_fields j n ln e) (db_users s)))"
  by (auto simp: user_page_def login_required_def simp del: map_eq_conv
      split: if_splits http_method.splits sum.splits option.splits) blast

lemma effect_delete_user:
  "delete_user j rq s = Inr (r, s') \<Longrightarrow>
   session s' = session s \<and>
   (db_users s' = db_users s \<or>
    (\<exists>cu. current_user s = Some cu \<and> role cu = Some BOSS_ROLE \<and>
          db_users s' = filter (\<lambda>u. user_id u \<noteq> j) (db_users s)))"
  by (auto simp: delete_user_def login_required_def session_delete_user_def
      split: if_splits http_method.splits sum.splits option.splits)

lemma effect_approve:
  "approve ev j rq s = Inr (r, s') \<Longrightarrow>
   session s' = session s \<and>
   (db_users s' = db_users s \<or>
    (\<exists>cu. request_method rq = POST \<and> current_user s = Some cu \<and> role cu = Some BOSS_ROLE \<and>
          db_users s' = map (set_approved j) (db_users s)))"
  by (auto simp: approve_def login_required_def try_send_def
      split: if_splits http_method.splits sum.splits option.splits)

lemma effect_new_case:
  "new_case rq s = Inr (r, s') \<Longrightarrow> session s' = session s \<and> db_users s' = db_users s"
  by (auto simp: new_case_def login_required_def add_case_def
      split: if_splits http_method.splits sum.splits option.splits)

lemma effect_case_page:
  "case_page c rq s = Inr (r, s') \<Longrightarrow> session s' = session s \<and> db_users s' = db_users s"
  by (auto simp: case_page_def login_required_def
      split: if_splits http_method.splits sum.splits option.splits)

lemma effect_delete_case:
  "delete_case c rq s = Inr (r, s') \<Longrightarrow> session s' = session s \<and> db_users s' = db_users s"
  by (auto simp: delete_case_def login_required_def
      split: if_splits http_method.splits sum.splits option.splits)

lemma dispatch_effect:
  assumes "dispatch ev rt rq s = Inr (r, s')"
  shows "users_effect ev rt rq s s' \<and> session_effect s s'"
proof (cases rt)
  case Route_index
  with assms show ?thesis
    by (auto simp: dispatch_def get_only_def users_effect_def session_effect_def
        dest: effect_index split: if_splits)
next
  case Route_register_guest
  with assms effect_register_guest [of ev rq s r s'] show ?thesis
    by (auto simp: dispatch_def users_effect_def session_effect_def)
next
  case Route_register_detective
  with assms effect_register_detective [of ev rq s r s'] show ?thesis
    by (auto simp: dispatch_def users_effect_def session_effect_def)
next
  case Route_login
  with assms effect_login [of ev rq s r s'] show ?thesis
    by (auto simp: dispatch_def users_effect_def)
next
  case Route_logout
  with assms effect_logout [of s r s'] show ?thesis
    by (auto simp: dispatch_def get_only_def users_effect_def session_effect_def split: if_splits)
next
  case Route_users
  with assms show ?thesis
    by (auto simp: dispatch_def get_only_def users_effect_def session_effect_def
        dest: effect_users split: if_splits)
next
  case (Route_user_page j)
  with assms effect_user_page [of j rq s r s'] show ?thesis
    by (auto simp: dispatch_def users_effect_def session_effect_def simp del: map_eq_conv) blast
next
  case (Route_delete_user j)
  with assms effect_delete_user [of j rq s r s'] show ?thesis
    by (auto simp: dispatch_def users_effect_def session_effect_def)
next
  case Route_approvals
  with assms show ?thesis
    by (auto simp: dispatch_def get_only_def users_effect_def session_effect_def
        dest: effect_approvals split: if_splits)
next
  case (Route_approve j)
  with assms effect_approve [of ev j rq s r s'] show ?thesis
    by (auto simp: dispatch_def users_effect_def session_effect_def simp del: map_eq_conv)
next
  case Route_new_case
  with assms effect_new_case [of rq s r s'] show ?thesis
    by (auto simp: dispatch_def users_effect_def session_effect_def)
next
  case (Route_case_page c)
  with assms effect_case_page [of c rq s r s'] show ?thesis
    by (auto simp: dispatch_def users_effect_def session_effect_def)
next
  case (Route_delete_case c)
  with assms effect_delete_case [of c rq s r s'] show ?thesis
    by (auto simp: dispatch_def users_effect_def session_effect_def)
qed

lemma load_user_session [simp]: "load_user (s\<lparr>session := c\<rparr>) i = load_user s i"
  by (simp add: load_user_def)

lemma users_keyed_session [simp]: "users_keyed (s\<lparr>session := c\<rparr>) = users_keyed s"
  by (simp add: users_keyed_def)

lemma users_effect_keyed:
  assumes "users_effect ev rt rq s s'" and "users_keyed s"
  shows "users_keyed s'"
  using assms new_id_fresh [of "map user_id (db_users s)"]
  by (auto simp: users_effect_def users_keyed_def distinct_map_filter comp_def)

lemma users_effect_pending:
  assumes "users_effect ev rt rq s s'" and "load_user s i = Some u" and "\<not> approved u"
    and "\<not> (rt = Route_approve i \<and> request_method rq = POST \<and>
            (\<exists>cu. current_user s = Some cu \<and> role cu = Some BOSS_ROLE))"
  shows "load_user s' i = None \<or> (\<exists>w. load_user s' i = Some w \<and> \<not> approved w)"
proof -
  let ?P = "\<lambda>u. user_id u = i"
  from assms(2) have f: "find ?P (db_users s) = Some u" by (simp add: load_user_def)
  from assms(1) consider
      (same) "db_users s' = db_users s"
    | (add) x where "db_users s' = db_users s @ [x]"
    | (edit) j n ln e where "db_users s' = map (set_user_fields j n ln e) (db_users s)"
    | (del) j where "db_users s' = filter (\<lambda>u. user_id u \<noteq> j) (db_users s)"
    | (appr) j cu where "rt = Route_approve j" "request_method rq = POST"
        "current_user s = Some cu" "role cu = Some BOSS_ROLE"
        "db_users s' = map (set_approved j) (db_users s)"
    unfolding users_effect_def by blast
  then show ?thesis
  proof cases
    case same
    with f assms(3) show ?thesis by (simp add: load_user_def)
  next
    case add
    with find_id_append [OF f, of x] assms(3) show ?thesis by (simp add: load_user_def)
  next
    case edit
    with find_id_set_user_fields [OF f, of j n ln e] assms(3) show ?thesis
      by (auto simp: load_user_def)
  next
    case del
    show ?thesis
    proof (cases "j = i")
      case True
      with del show ?thesis by (simp add: load_user_def find_filter_out)
    next
      case False
      with del f assms(3) show ?thesis by (simp add: load_user_def find_id_filter_other)
    qed
  next
    case appr
    with assms(4) have "j \<noteq> i" by auto
    with appr(5) f assms(3) show ?thesis
      by (simp add: load_user_def find_id_set_approved_other)
  qed
qed

lemma session_effect_pending:
  assumes "session_effect s s'" and "users_keyed s" and "load_user s i = Some u"
    and "\<not> approved u" and "session s \<noteq> Some i"
  shows "session s' \<noteq> Some i"
proof
  assume a: "session s' = Some i"
  with assms(1,5) obtain w where w: "w \<in> set (db_users s)" "approved w" "user_id w = i"
    by (auto simp: session_effect_def)
  from assms(3) have "u \<in> set (db_users s)" "user_id u = i"
    by (auto dest: load_user_mem load_user_id)
  with w assms(2) have "w = u"
    by (auto simp: users_keyed_def intro: keyed_unique)
  with w assms(4) show False by simp
qed

lemma step_pending:
  assumes "users_keyed s" and "load_user s i = Some u" and "\<not> approved u"
    and "\<not> boss_approves s v i" and "step ev s v = (s', out)"
  shows "users_keyed s' \<and> \<not> gets_session v out i \<and>
         (load_user s' i = None \<or> (\<exists>w. load_user s' i = Some w \<and> \<not> approved w))"
proof (cases "dispatch ev (route v) (req v) (s\<lparr>session := client v\<rparr>)")
  case (Inl x)
  with assms show ?thesis by (auto simp: step_def gets_session_def)
next
  case (Inr p)
  obtain r t where p: "p = (r, t)" by (cases p)
  let ?s = "s\<lparr>session := client v\<rparr>"
  from Inr p have d: "dispatch ev (route v) (req v) ?s = Inr (r, t)" by simp
  with assms(5) have eq: "s' = t" "out = Served r (session t)" by (auto simp: step_def)
  from dispatch_effect [OF d] have e: "users_effect ev (route v) (req v) ?s t"
    "session_effect ?s t" by simp_all
  have k: "users_keyed ?s" "load_user ?s i = Some u" using assms(1,2) by simp_all
  have nb: "\<not> (route v = Route_approve i \<and> request_method (req v) = POST \<and>
            (\<exists>cu. current_user ?s = Some cu \<and> role cu = Some BOSS_ROLE))"
    using assms(4) by (auto simp: boss_approves_def)
  have 1: "users_keyed t" using users_effect_keyed [OF e(1) k(1)] .
  have 2: "load_user t i = None \<or> (\<exists>w. load_user t i = Some w \<and> \<not> approved w)"
    using users_effect_pending [OF e(1) k(2) assms(3) nb] .
  have 3: "\<not> gets_session v out i"
  proof (cases "client v = Some i")
    case True
    then show ?thesis by (simp add: gets_session_def eq)
  next
    case False
    then have "session ?s \<noteq> Some i" by simp
    from session_effect_pending [OF e(2) k(1) k(2) assms(3) this]
    show ?thesis by (simp add: gets_session_def eq)
  qed
  from 1 2 3 eq show ?thesis by simp
qed

lemma pending_no_session:
  "users_keyed s \<Longrightarrow> load_user s i = Some u \<Longrightarrow> \<not> approved u \<Longrightarrow>
   no_session_before_approval ev i s vs"
proof (induction vs arbitrary: s u)
  case Nil
  then show ?case by simp
next
  case (Cons v vs)
  show ?case
  proof (cases "boss_approves s v i")
    case True
    then show ?thesis by simp
  next
    case False
    obtain s' out where st: "step ev s v = (s', out)" by (cases "step ev s v")
    from step_pending [OF Cons.prems False st]
    have k: "users_keyed s'" and g: "\<not> gets_session v out i"
      and p: "load_user s' i = None \<or> (\<exists>w. load_user s' i = Some w \<and> \<not> approved w)"
      by simp_all
    from p have "load_user s' i = None \<or> no_session_before_approval ev i s' vs"
      using Cons.IH [OF k] by blast
    with False st g show ?thesis by simp
  qed
qed

section \<open>No session before approval\<close>

lemma first_by_email_session [simp]:
  "first_by_email (s\<lparr>session := c\<rparr>) e = first_by_email s e"
  by (cases e) (simp_all add: first_by_email_def)

lemma register_detective_success:
  assumes "register_detective ev rq s = Inr (Redirect Login_new_user, s')"
  shows "\<exists>u. s' = s\<lparr>db_users := db_users s @ [u]\<rparr> \<and>
             user_id u = new_id (map user_id (db_users s)) \<and>
             role u = Some DETECTIVE_ROLE \<and> \<not> approved u"
  using assms
  by (auto simp: register_detective_def add_user_def
      split: if_splits http_method.splits sum.splits option.splits)

lemma find_append_None: "find P xs = None \<Longrightarrow> find P (xs @ ys) = find P ys"
  by (induction xs) (auto split: if_splits)

lemma load_user_new:
  assumes "user_id u = new_id (map user_id (db_users s))"
  shows "load_user (s\<lparr>db_users := db_users s @ [u]\<rparr>) (user_id u) = Some u"
proof -
  have "user_id u \<notin> set (map user_id (db_users s))"
    using new_id_fresh [of "map user_id (db_users s)"] assms by simp
  then have "find (\<lambda>w. user_id w = user_id u) (db_users s) = None"
    by (fastforce simp: find_None_iff image_iff)
  then show ?thesis by (simp add: load_user_def find_append_None)
qed

lemma registered_detective_pending:
  assumes "users_keyed s"
    and "step ev s \<lparr>client = c, route = Route_register_detective, req = rq\<rparr> =
           (s1, Served (Redirect Login_new_user) c1)"
  shows "\<exists>u. db_users s1 = db_users s @ [u] \<and> role u = Some DETECTIVE_ROLE \<and>
             \<not> approved u \<and> no_session_before_approval ev (user_id u) s1 vs"
proof -
  let ?s = "s\<lparr>session := c\<rparr>"
  from assms(2) have "register_detective ev rq ?s = Inr (Redirect Login_new_user, s1)"
    by (auto simp: step_def dispatch_def split: sum.splits)
  from register_detective_success [OF this] obtain u where
    u: "s1 = ?s\<lparr>db_users := db_users ?s @ [u]\<rparr>"
       "user_id u = new_id (map user_id (db_users ?s))"
       "role u = Some DETECTIVE_ROLE" "\<not> approved u"
    by blast
  have l: "load_user s1 (user_id u) = Some u"
    using load_user_new [OF u(2)] u(1) by simp
  have k: "users_keyed s1"
    using assms(1) u(1,2) new_id_fresh [of "map user_id (db_users s)"]
    by (auto simp: users_keyed_def)
  from pending_no_session [OF k l u(4)] u show ?thesis by auto
qed

lemma approved_after_set:
  assumes "w \<in> set (map (set_approved i) xs)" and "user_id w = i"
  shows "approved w"
proof -
  from assms(1) obtain x where x: "w = set_approved i x" by auto
  with assms(2) have "user_id x = i" by simp
  with x show ?thesis by (simp add: set_approved_def)
qed

lemma boss_approval_effect:
  assumes "boss_approves t v i" and "load_user t i = Some u" and "step ev t v = (t1, out)"
  shows "db_users t1 = map (set_approved i) (db_users t) \<and>
         out = Served (Redirect Approvals) (client v)"
  using assms
  by (auto simp: boss_approves_def step_def dispatch_def approve_def login_required_def
      try_send_def split: option.splits)

lemma users_effect_approved:
  assumes "users_effect ev rt rq s s'" and "load_user s i = Some u" and "approved u"
  shows "load_user s' i = None \<or> (\<exists>w. load_user s' i = Some w \<and> approved w)"
proof -
  let ?P = "\<lambda>u. user_id u = i"
  from assms(2) have f: "find ?P (db_users s) = Some u" by (simp add: load_user_def)
  from assms(1) consider
      (same) "db_users s' = db_users s"
    | (add) x where "db_users s' = db_users s @ [x]"
    | (edit) j n ln e where "db_users s' = map (set_user_fields j n ln e) (db_users s)"
    | (del) j where "db_users s' = filter (\<lambda>u. user_id u \<noteq> j) (db_users s)"
    | (appr) j where "db_users s' = map (set_approved j) (db_users s)"
    unfolding users_effect_def by blast
  then show ?thesis
  proof cases
    case same
    with f assms(3) show ?thesis by (simp add: load_user_def)
  next
    case add
    with find_id_append [OF f, of x] assms(3) show ?thesis by (simp add: load_user_def)
  next
    case edit
    with find_id_set_user_fields [OF f, of j n ln e] assms(3) show ?thesis
      by (auto simp: load_user_def)
  next
    case del
    show ?thesis
    proof (cases "j = i")
      case True
      with del show ?thesis by (simp add: load_user_def find_filter_out)
    next
      case False
      with del f assms(3) show ?thesis by (simp add: load_user_def find_id_filter_other)
    qed
  next
    case appr
    show ?thesis
    proof (cases "j = i")
      case True
      with appr find_map_set_approved [OF f] show ?thesis by (simp add: load_user_def)
    next
      case False
      with appr f assms(3) show ?thesis
        by (simp add: load_user_def find_id_set_approved_other)
    qed
  qed
qed

lemma step_approved:
  assumes "users_keyed s" and "load_user s i = Some u" and "approved u"
    and "step ev s v = (s', out)"
  shows "users_keyed s' \<and>
         (load_user s' i = None \<or> (\<exists>w. load_user s' i = Some w \<and> approved w))"
proof (cases "dispatch ev (route v) (req v) (s\<lparr>session := client v\<rparr>)")
  case (Inl x)
  with assms show ?thesis by (auto simp: step_def)
next
  case (Inr p)
  obtain r t where p: "p = (r, t)" by (cases p)
  let ?s = "s\<lparr>session := client v\<rparr>"
  from Inr p have d: "dispatch ev (route v) (req v) ?s = Inr (r, t)" by simp
  with assms(4) have eq: "s' = t" by (auto simp: step_def)
  from dispatch_effect [OF d] have e: "users_effect ev (route v) (req v) ?s t" by simp
  have k: "users_keyed ?s" "load_user ?s i = Some u" using assms(1,2) by simp_all
  from users_effect_keyed [OF e k(1)] users_effect_approved [OF e k(2) assms(3)] eq
  show ?thesis by simp
qed

lemma run_while_present_approved:
  "users_keyed s \<Longrightarrow> load_user s i = Some u \<Longrightarrow> approved u \<Longrightarrow>
   run_while_present ev i s vs = Some t \<Longrightarrow>
   users_keyed t \<and> (\<exists>w. load_user t i = Some w \<and> approved w)"
proof (induction vs arbitrary: s u)
  case Nil
  then show ?case by (auto split: if_splits)
next
  case (Cons v vs)
  obtain s' out where st: "step ev s v = (s', out)" by (cases "step ev s v")
  from Cons.prems(4) Cons.prems(2) st have r: "run_while_present ev i s' vs = Some t"
    by simp
  from step_approved [OF Cons.prems(1,2,3) st]
  have k: "users_keyed s'"
    and p: "load_user s' i = None \<or> (\<exists>w. load_user s' i = Some w \<and> approved w)"
    by simp_all
  from r have "load_user s' i \<noteq> None" by (cases vs) (auto split: if_splits)
  with p obtain w where w: "load_user s' i = Some w" "approved w" by auto
  from Cons.IH [OF k w r] show ?case .
qed

lemma boss_approval_approves:
  assumes "users_keyed t" and "boss_approves t v i" and "load_user t i = Some u"
    and "step ev t v = (t1, out)"
  shows "users_keyed t1 \<and> load_user t1 i = Some (u\<lparr>approved := True\<rparr>) \<and>
         out = Served (Redirect Approvals) (client v)"
proof -
  from boss_approval_effect [OF assms(2,3,4)]
  have e: "db_users t1 = map (set_approved i) (db_users t)"
    "out = Served (Redirect Approvals) (client v)" by simp_all
  from assms(3) have "find (\<lambda>u. user_id u = i) (db_users t) = Some u"
    by (simp add: load_user_def)
  from find_map_set_approved [OF this] e(1)
  have "load_user t1 i = Some (u\<lparr>approved := True\<rparr>)" by (simp add: load_user_def)
  moreover from assms(1) e(1) have "users_keyed t1" by (simp add: users_keyed_def comp_def)
  ultimately show ?thesis using e(2) by simp
qed

lemma login_once_approved:
  assumes "users_keyed t" and "boss_approves t v i" and "load_user t i = Some u"
    and "step ev t v = (t1, out)" and "run_while_present ev i t1 vs = Some t2"
    and "current_user (t2\<lparr>session := c\<rparr>) = None" and "request_method rq = POST"
    and "first_by_email t2 (form rq ''email'') = Some w" and "user_id w = i"
    and "check_password_hash ev (password w) (form rq ''password'') = Inr True"
  shows "step ev t2 \<lparr>client = c, route = Route_login, req = rq\<rparr> =
           (login_user w (t2\<lparr>session := c\<rparr>), Served (Redirect Index) (Some i))"
proof -
  from boss_approval_approves [OF assms(1,2,3,4)]
  have a: "users_keyed t1" "load_user t1 i = Some (u\<lparr>approved := True\<rparr>)" by simp_all
  have "approved (u\<lparr>approved := True\<rparr>)" by simp
  from run_while_present_approved [OF a this assms(5)]
  obtain x where x: "users_keyed t2" "load_user t2 i = Some x" "approved x" by auto
  from x(2) have "x \<in> set (db_users t2)" "user_id x = i"
    by (auto dest: load_user_mem load_user_id)
  moreover from assms(8) have "w \<in> set (db_users t2)" by (rule first_by_email_mem)
  ultimately have "w = x" using x(1) assms(9)
    by (auto simp: users_keyed_def intro: keyed_unique)
  with x(3) have "approved w" by simp
  with assms(6,7,8,9,10) show ?thesis
    by (simp add: step_def dispatch_def login_def is_authenticated_def login_user_def)
qed

text \<open>
  Two sequences of requests in the small agency. In the first, Carol registers as a
  detective, Bob logs in and posts Carol's email to his own user page, the Boss logs in
  and approves Carol; Carol's row is approved and holds the email and the hash of the
  password she now submits, yet her login is answered with the redirect to the login
  page, because the lookup by email returns Bob's row, which comes first. In the second,
  Bob logs in and keeps his session, the Boss deletes Bob, and Dave registers as a
  detective and is given the key 3 that Bob had; Bob's session now resolves to Dave's
  unapproved row, and with it a case is created in Dave's name before any approval.
\<close>

theorem approved_detective_locked_out:
  "fst (step demo_env (agency None) (visit_by None Route_register_detective carol_form)) =
     with_carol \<and>
   load_user (run demo_env with_carol lockout_visits) 4 = Some (carol\<lparr>approved := True\<rparr>) \<and>
   form carol_login ''email'' = Some (email carol) \<and>
   check_password_hash demo_env (password carol) (form carol_login ''password'') = Inr True \<and>
   snd (step demo_env (run demo_env with_carol lockout_visits)
          (visit_by None Route_login carol_login)) = Served (Redirect Login) None \<and>
   snd (step demo_env (agency None) bob_login) = Served (Redirect Index) (Some 3) \<and>
   load_user (run demo_env (agency None) stale_visits) 3 = Some dave \<and>
   \<not> approved dave \<and>
   current_user ((run demo_env (agency None) stale_visits)\<lparr>session := Some 3\<rparr>) = Some dave \<and>
   snd (step demo_env (run demo_env (agency None) stale_visits)
          (visit_by (Some 3) Route_new_case (post [(''title'', ''T''), (''content'', ''X'')]))) =
     Served (Redirect Index) (Some 3) \<and>
   map uid (db_cases (fst (step demo_env (run demo_env (agency None) stale_visits)
          (visit_by (Some 3) Route_new_case (post [(''title'', ''T''), (''content'', ''X'')]))))) =
     [Some 2, Some 3]"
proof -
  have l: "run demo_env with_carol lockout_visits =
    \<lparr>db_users = [boss, alice, bob\<lparr>email := ''carol@x.com''\<rparr>, carol\<lparr>approved := True\<rparr>],
     db_cases = [case1], session = Some 1,
     send_calls = [approval_message demo_env carol], stdout = [Email_settings_warning]\<rparr>"
    by (simp add: step_def handler_defs set_approved_def set_user_fields_def
        approval_message_def query_defs trace_defs carol_defs demo_defs)
  have s: "run demo_env (agency None) stale_visits =
    \<lparr>db_users = [boss, alice, dave], db_cases = [case1], session = None,
     send_calls = [], stdout = []\<rparr>"
    by (simp add: step_def handler_defs orphan_def new_id_def query_defs trace_defs
        carol_defs demo_defs)
  show ?thesis
    unfolding l s
    by (simp add: step_def handler_defs new_id_def query_defs trace_defs carol_defs demo_defs)
qed

text \<open>
  Claim C7, amended. When a detective registration has created a user, then along every
  sequence of requests that follows, by any clients, no request gives a client a session
  for that user's id that the client did not already present (\<open>login_user\<close> is
  not reached for the user) before a Boss has posted the approval of the id, for as
  long as the user's row exists. And once a Boss has approved the id of an existing
  user, then after any further requests during which the row exists, an anonymous login
  succeeds whenever the lookup by the submitted email returns that user's row and the
  stored hash accepts the submitted password: it answers with the redirect to the home
  page and a session for the user. The users table is keyed by id throughout.
\<close>

theorem detective_needs_approval:
  "(users_keyed s \<and>
    step ev s \<lparr>client = c, route = Route_register_detective, req = rq\<rparr> =
      (s1, Served (Redirect Login_new_user) c1) \<longrightarrow>
    (\<exists>u. db_users s1 = db_users s @ [u] \<and> role u = Some DETECTIVE_ROLE \<and> \<not> approved u \<and>
         no_session_before_approval ev (user_id u) s1 vs)) \<and>
   (users_keyed t \<and> boss_approves t v i \<and> load_user t i = Some w0 \<and>
    step ev t v = (t1, out) \<and> run_while_present ev i t1 ws = Some t2 \<and>
    current_user (t2\<lparr>session := c'\<rparr>) = None \<and> request_method rq' = POST \<and>
    first_by_email t2 (form rq' ''email'') = Some w \<and> user_id w = i \<and>
    check_password_hash ev (password w) (form rq' ''password'') = Inr True \<longrightarrow>
    step ev t2 \<lparr>client = c', route = Route_login, req = rq'\<rparr> =
      (login_user w (t2\<lparr>session := c'\<rparr>), Served (Redirect Index) (Some i)))"
proof (intro conjI impI)
  assume "users_keyed s \<and>
    step ev s \<lparr>client = c, route = Route_register_detective, req = rq\<rparr> =
      (s1, Served (Redirect Login_new_user) c1)"
  then show "\<exists>u. db_users s1 = db_users s @ [u] \<and> role u = Some DETECTIVE_ROLE \<and>
      \<not> approved u \<and> no_session_before_approval ev (user_id u) s1 vs"
    using registered_detective_pending [of s ev c rq s1 c1 vs] by simp
next
  assume "users_keyed t \<and> boss_approves t v i \<and> load_user t i = Some w0 \<and>
    step ev t v = (t1, out) \<and> run_while_present ev i t1 ws = Some t2 \<and>
    current_user (t2\<lparr>session := c'\<rparr>) = None \<and> request_method rq' = POST \<and>
    first_by_email t2 (form rq' ''email'') = Some w \<and> user_id w = i \<and>
    check_password_hash ev (password w) (form rq' ''password'') = Inr True"
  then show "step ev t2 \<lparr>client = c', route = Route_login, req = rq'\<rparr> =
      (login_user w (t2\<lparr>session := c'\<rparr>), Served (Redirect Index) (Some i))"
    using login_once_approved [of t v i w0 ev t1 out ws t2 c' rq' w] by simp
qed

theorem detective_needs_approval_witness:
  "users_keyed (agency None) \<and>
   step demo_env (agency None) (visit_by None Route_register_detective carol_form) =
     (with_carol, Served (Redirect Login_new_user) None) \<and>
   no_session_before_approval demo_env 4 with_carol visits \<and>
   step demo_env with_carol (visit_by None Route_login carol_login) =
     (with_carol, Served (Redirect Login) None) \<and>
   step demo_env with_carol (visit_by (Some 1) (Route_approve 4) (post [])) =
     (carol_approved, Served (Redirect Approvals) (Some 1)) \<and>
   run_while_present demo_env 4 carol_approved later_visits = Some carol_later \<and>
   step demo_env carol_later (visit_by None Route_login carol_login) =
     (carol_later\<lparr>session := Some 4\<rparr>, Served (Redirect Index) (Some 4))"
proof -
  let ?app = "visit_by (Some 1) (Route_approve 4) (post [])"
  have k: "users_keyed (agency None)" "users_keyed with_carol"
    by (simp_all add: users_keyed_def carol_defs demo_defs)
  have r: "step demo_env (agency None) \<lparr>client = None, route = Route_register_detective,
             req = carol_form\<rparr> = (with_carol, Served (Redirect Login_new_user) None)"
    by (simp add: step_def handler_defs new_id_def query_defs carol_defs demo_defs)
  have f: "step demo_env with_carol (visit_by None Route_login carol_login) =
     (with_carol, Served (Redirect Login) None)"
    by (simp add: step_def handler_defs query_defs carol_defs demo_defs)
  have a: "boss_approves with_carol ?app 4" "load_user with_carol 4 = Some carol"
    by (simp_all add: boss_approves_def query_defs carol_defs demo_defs)
  have b: "step demo_env with_carol ?app = (carol_approved, Served (Redirect Approvals) (Some 1))"
    by (simp add: step_def handler_defs set_approved_def approval_message_def query_defs
        carol_defs demo_defs)
  have l: "run_while_present demo_env 4 carol_approved later_visits = Some carol_later"
    by (simp add: later_visits_def carol_later_def step_def handler_defs set_user_fields_def
        query_defs trace_defs carol_defs demo_defs)
  have c: "current_user (carol_later\<lparr>session := None\<rparr>) = None"
    "request_method carol_login = POST"
    "first_by_email carol_later (form carol_login ''email'') =
       Some (carol\<lparr>approved := True\<rparr>)"
    "user_id (carol\<lparr>approved := True\<rparr>) = 4"
    "check_password_hash demo_env (password (carol\<lparr>approved := True\<rparr>))
       (form carol_login ''password'') = Inr True"
    by (simp_all add: carol_later_def query_defs carol_defs demo_defs)
  have u: "db_users with_carol = db_users (agency None) @ [carol]" "user_id carol = 4"
    by (simp_all add: carol_defs demo_defs)
  from detective_needs_approval [of "agency None" demo_env None carol_form with_carol None
      visits with_carol ?app 4 carol carol_approved "Served (Redirect Approvals) (Some 1)"
      later_visits carol_later None carol_login "carol\<lparr>approved := True\<rparr>"] k r a b l c
  have "(\<exists>u. db_users with_carol = db_users (agency None) @ [u] \<and>
             no_session_before_approval demo_env (user_id u) with_carol visits)"
    and n: "step demo_env carol_later \<lparr>client = None, route = Route_login,
              req = carol_login\<rparr> =
            (login_user (carol\<lparr>approved := True\<rparr>) (carol_later\<lparr>session := None\<rparr>),
             Served (Redirect Index) (Some 4))"
    by auto
  with u have m: "no_session_before_approval demo_env 4 with_carol visits" by auto
  from k r f b l n m show ?thesis
    by (simp add: visit_by_def login_user_def carol_def)
qed

section \<open>GET and POST on the mutating routes\<close>

text \<open>
  A GET of the delete-user, approve-user or delete-case route renders nothing: for the
  Boss of the small agency, and targets that exist, each answers with the redirect to
  the home page. And a GET of the user page or the case page of an id that is not there
  is a 404, not a redirect.
\<close>

theorem get_on_action_routes_renders_nothing:
  "\<not> renders (delete_user 2 get (agency (Some 1))) \<and>
   \<not> renders (approve demo_env 2 get (agency (Some 1))) \<and>
   \<not> renders (delete_case 1 get (agency (Some 1))) \<and>
   delete_user 2 get (agency (Some 1)) = Inr (Redirect Index, agency (Some 1)) \<and>
   user_page 9 get (agency (Some 1)) = Inr (Abort 404, agency (Some 1)) \<and>
   case_page 9 get (agency (Some 1)) = Inr (Abort 404, agency (Some 1))"
  by (simp add: renders_def delete_user_def approve_def delete_case_def user_page_def
      case_page_def login_required_def query_defs demo_defs)

lemma get_never_mutates:
  assumes "current_user s = Some cu" and "request_method rq = GET"
  shows "delete_user i rq s = Inr (Redirect Index, s) \<and>
         approve ev i rq s = Inr (Redirect Index, s) \<and>
         delete_case c rq s = Inr (Redirect Index, s) \<and>
         new_case rq s =
           (if staff cu then Inr (Render New_case_html, s) else Inr (Redirect Index, s)) \<and>
         user_page i rq s =
           (case load_user s i of
              None \<Rightarrow> Inr (Abort 404, s)
            | Some u \<Rightarrow> if staff cu \<or> user_id cu = i then Inr (Render (User_page_html u), s)
                        else Inr (Redirect Index, s)) \<and>
         case_page c rq s =
           (case find_case s c of
              None \<Rightarrow> Inr (Abort 404, s)
            | Some k \<Rightarrow> Inr (Render (Case_page_html k), s))"
  using assms
  by (auto simp: delete_user_def approve_def delete_case_def new_case_def user_page_def
      case_page_def login_required_def eq_user_def dest: load_user_id split: option.splits)

lemma post_refused:
  assumes "current_user s = Some cu" and "request_method rq = POST"
  shows "(role cu \<noteq> Some BOSS_ROLE \<or> load_user s i = None \<longrightarrow>
            delete_user i rq s = Inr (Redirect Index, s) \<and>
            approve ev i rq s = Inr (Redirect Index, s)) \<and>
         (\<not> staff cu \<longrightarrow> new_case rq s = Inr (Redirect Index, s)) \<and>
         (role cu = Some BOSS_ROLE \<and> find_case s c = None \<longrightarrow>
            delete_case c rq s = Inr (Redirect Index, s)) \<and>
         (role cu \<noteq> Some BOSS_ROLE \<and> find_case s c = Some k \<and>
          \<not> eq_user cu (case_user s k) \<longrightarrow>
            delete_case c rq s = Inr (Redirect Index, s))"
  using assms
  by (auto simp: delete_user_def approve_def delete_case_def new_case_def
      login_required_def may_delete_def)

lemma post_edits:
  assumes "current_user s = Some cu" and "request_method rq = POST"
  shows "(load_user s i = Some u \<and> form rq ''name'' = Some n \<and> form rq ''email'' = Some e \<longrightarrow>
            user_page i rq s =
              Inr (Redirect (User_page i),
                   s\<lparr>db_users := map (set_user_fields i n (form rq ''last_name'') e)
                                    (db_users s)\<rparr>)) \<and>
         (find_case s c = Some k \<and> form rq ''title'' = Some t \<and>
          form rq ''content'' = Some x \<longrightarrow>
            case_page c rq s =
              Inr (Redirect (Case_page c),
                   s\<lparr>db_cases := map (set_case_fields c t (form rq ''description'') x)
                                    (db_cases s)\<rparr>))"
  using assms
  by (simp add: user_page_def case_page_def login_required_def)

lemma post_performed:
  assumes "current_user s = Some cu" and "request_method rq = POST"
  shows "(role cu = Some BOSS_ROLE \<and> load_user s i = Some u \<longrightarrow>
            delete_user i rq s = Inr (Redirect Users, session_delete_user i s) \<and>
            load_user (session_delete_user i s) i = None \<and>
            approve ev i rq s =
              Inr (Redirect Approvals,
                   try_send ev (approval_message ev u)
                     (s\<lparr>db_users := map (set_approved i) (db_users s)\<rparr>)) \<and>
            load_user (try_send ev (approval_message ev u)
                     (s\<lparr>db_users := map (set_approved i) (db_users s)\<rparr>)) i =
              Some (u\<lparr>approved := True\<rparr>)) \<and>
         (staff cu \<and> form rq ''title'' = Some t \<and> form rq ''content'' = Some x \<longrightarrow>
            new_case rq s =
              Inr (Redirect Index,
                   s\<lparr>db_cases := db_cases s @
                     [\<lparr>case_id = new_id (map case_id (db_cases s)), uid = Some (user_id cu),
                       title = t, description = form rq ''description'', content = x\<rparr>]\<rparr>)) \<and>
         (find_case s c = Some k \<and>
          (role cu = Some BOSS_ROLE \<or> eq_user cu (case_user s k)) \<longrightarrow>
            delete_case c rq s =
              Inr (Redirect Index,
                   s\<lparr>db_cases := filter (\<lambda>k. case_id k \<noteq> c) (db_cases s)\<rparr>) \<and>
            find_case (s\<lparr>db_cases := filter (\<lambda>k. case_id k \<noteq> c) (db_cases s)\<rparr>) c = None)"
proof (intro conjI impI)
  assume a: "role cu = Some BOSS_ROLE \<and> load_user s i = Some u"
  with assms show "delete_user i rq s = Inr (Redirect Users, session_delete_user i s)"
    by (simp add: delete_user_def login_required_def)
  show "load_user (session_delete_user i s) i = None"
    by (simp add: session_delete_user_def load_user_def find_filter_out)
  from a assms show "approve ev i rq s =
      Inr (Redirect Approvals,
           try_send ev (approval_message ev u)
             (s\<lparr>db_users := map (set_approved i) (db_users s)\<rparr>))"
    by (simp add: approve_def login_required_def)
  from a find_map_set_approved [of i "db_users s" u]
  show "load_user (try_send ev (approval_message ev u)
             (s\<lparr>db_users := map (set_approved i) (db_users s)\<rparr>)) i =
      Some (u\<lparr>approved := True\<rparr>)"
    by (simp add: try_send_def load_user_def)
next
  assume "staff cu \<and> form rq ''title'' = Some t \<and> form rq ''content'' = Some x"
  with assms show "new_case rq s =
      Inr (Redirect Index,
           s\<lparr>db_cases := db_cases s @
             [\<lparr>case_id = new_id (map case_id (db_cases s)), uid = Some (user_id cu),
               title = t, description = form rq ''description'', content = x\<rparr>]\<rparr>)"
    by (simp add: new_case_def login_required_def add_case_def)
next
  assume "find_case s c = Some k \<and>
          (role cu = Some BOSS_ROLE \<or> eq_user cu (case_user s k))"
  with assms show "delete_case c rq s =
      Inr (Redirect Index, s\<lparr>db_cases := filter (\<lambda>k. case_id k \<noteq> c) (db_cases s)\<rparr>)"
    by (auto simp: delete_case_def login_required_def may_delete_def)
  show "find_case (s\<lparr>db_cases := filter (\<lambda>k. case_id k \<noteq> c) (db_cases s)\<rparr>) c = None"
    by (simp add: find_case_def find_filter_out)
qed

text \<open>
  Claim C8, amended. For an authenticated actor, a GET of any of the six mutating routes
  leaves the state as it is: on delete user, approve user and delete case it redirects to
  the home page; on case create it renders the form for a Detective or Boss and
  redirects home for anyone else; on the user page it is a 404 for a missing user, the
  page for a Detective, a Boss or the user themself, and a redirect home otherwise; on
  the case page it is a 404 for a missing case and the page otherwise. Only a POST
  mutates. A POST by a Boss deletes, or approves, an existing user; a POST by a
  Detective or Boss with title and content creates a case owned by the actor; a POST by
  a Boss or by the owner deletes an existing case; a POST with name and email by a Boss
  or by the user themself edits an existing user, and a POST with title and content by
  a Boss or by the owner edits an existing case. A POST to delete user or approve user
  by a non-Boss or for a missing user, to case create by an actor who is neither
  Detective nor Boss, to delete case by a Boss for a missing case or by a non-Boss who
  does not own the existing case, redirects to the home page and changes nothing.
\<close>

theorem mutating_routes_get_and_post:
  assumes "current_user s = Some cu"
  shows "(request_method rq = GET \<longrightarrow>
            delete_user i rq s = Inr (Redirect Index, s) \<and>
            approve ev i rq s = Inr (Redirect Index, s) \<and>
            delete_case c rq s = Inr (Redirect Index, s) \<and>
            new_case rq s =
              (if staff cu then Inr (Render New_case_html, s) else Inr (Redirect Index, s)) \<and>
            user_page i rq s =
              (case load_user s i of
                 None \<Rightarrow> Inr (Abort 404, s)
               | Some u \<Rightarrow> if staff cu \<or> user_id cu = i then Inr (Render (User_page_html u), s)
                           else Inr (Redirect Index, s)) \<and>
            case_page c rq s =
              (case find_case s c of
                 None \<Rightarrow> Inr (Abort 404, s)
               | Some k \<Rightarrow> Inr (Render (Case_page_html k), s))) \<and>
         (request_method rq = POST \<longrightarrow>
            (role cu \<noteq> Some BOSS_ROLE \<or> load_user s i = None \<longrightarrow>
               delete_user i rq s = Inr (Redirect Index, s) \<and>
               approve ev i rq s = Inr (Redirect Index, s)) \<and>
            (\<not> staff cu \<longrightarrow> new_case rq s = Inr (Redirect Index, s)) \<and>
            (role cu = Some BOSS_ROLE \<and> find_case s c = None \<longrightarrow>
               delete_case c rq s = Inr (Redirect Index, s)) \<and>
            (role cu \<noteq> Some BOSS_ROLE \<and> find_case s c = Some k \<and>
             \<not> eq_user cu (case_user s k) \<longrightarrow>
               delete_case c rq s = Inr (Redirect Index, s)) \<and>
            (role cu = Some BOSS_ROLE \<and> load_user s i = Some u \<longrightarrow>
               delete_user i rq s = Inr (Redirect Users, session_delete_user i s) \<and>
               load_user (session_delete_user i s) i = None \<and>
               approve ev i rq s =
                 Inr (Redirect Approvals,
                      try_send ev (approval_message ev u)
                        (s\<lparr>db_users := map (set_approved i) (db_users s)\<rparr>)) \<and>
               load_user (try_send ev (approval_message ev u)
                        (s\<lparr>db_users := map (set_approved i) (db_users s)\<rparr>)) i =
                 Some (u\<lparr>approved := True\<rparr>)) \<and>
            (staff cu \<and> form rq ''title'' = Some t \<and> form rq ''content'' = Some x \<longrightarrow>
               new_case rq s =
                 Inr (Redirect Index,
                      s\<lparr>db_cases := db_cases s @
                        [\<lparr>case_id = new_id (map case_id (db_cases s)),
                          uid = Some (user_id cu), title = t,
                          description = form rq ''description'', content = x\<rparr>]\<rparr>)) \<and>
            (find_case s c = Some k \<and>
             (role cu = Some BOSS_ROLE \<or> eq_user cu (case_user s k)) \<longrightarrow>
               delete_case c rq s =
                 Inr (Redirect Index,
                      s\<lparr>db_cases := filter (\<lambda>k. case_id k \<noteq> c) (db_cases s)\<rparr>) \<and>
               find_case (s\<lparr>db_cases := filter (\<lambda>k. case_id k \<noteq> c) (db_cases s)\<rparr>) c =
                 None) \<and>
            (load_user s i = Some u \<and> (role cu = Some BOSS_ROLE \<or> user_id cu = i) \<and>
             form rq ''name'' = Some n \<and> form rq ''email'' = Some e \<longrightarrow>
               user_page i rq s =
                 Inr (Redirect (User_page i),
                      s\<lparr>db_users := map (set_user_fields i n (form rq ''last_name'') e)
                                       (db_users s)\<rparr>)) \<and>
            (find_case s c = Some k \<and>
             (role cu = Some BOSS_ROLE \<or> eq_user cu (case_user s k)) \<and>
             form rq ''title'' = Some t \<and> form rq ''content'' = Some x \<longrightarrow>
               case_page c rq s =
                 Inr (Redirect (Case_page c),
                      s\<lparr>db_cases := map (set_case_fields c t (form rq ''description'') x)
                                       (db_cases s)\<rparr>)))"
proof (rule conjI; rule impI)
  assume "request_method rq = GET"
  from get_never_mutates [OF assms this, of i ev c]
  show "delete_user i rq s = Inr (Redirect Index, s) \<and>
            approve ev i rq s = Inr (Redirect Index, s) \<and>
            delete_case c rq s = Inr (Redirect Index, s) \<and>
            new_case rq s =
              (if staff cu then Inr (Render New_case_html, s) else Inr (Redirect Index, s)) \<and>
            user_page i rq s =
              (case load_user s i of
                 None \<Rightarrow> Inr (Abort 404, s)
               | Some u \<Rightarrow> if staff cu \<or> user_id cu = i then Inr (Render (User_page_html u), s)
                           else Inr (Redirect Index, s)) \<and>
            case_page c rq s =
              (case find_case s c of
                 None \<Rightarrow> Inr (Abort 404, s)
               | Some k \<Rightarrow> Inr (Render (Case_page_html k), s))" .
next
  assume p: "request_method rq = POST"
  have r: "(role cu \<noteq> Some BOSS_ROLE \<or> load_user s i = None \<longrightarrow>
               delete_user i rq s = Inr (Redirect Index, s) \<and>
               approve ev i rq s = Inr (Redirect Index, s)) \<and>
            (\<not> staff cu \<longrightarrow> new_case rq s = Inr (Redirect Index, s)) \<and>
            (role cu = Some BOSS_ROLE \<and> find_case s c = None \<longrightarrow>
               delete_case c rq s = Inr (Redirect Index, s)) \<and>
            (role cu \<noteq> Some BOSS_ROLE \<and> find_case s c = Some k \<and>
             \<not> eq_user cu (case_user s k) \<longrightarrow>
               delete_case c rq s = Inr (Redirect Index, s))"
    by (rule post_refused [OF assms p])
  have d: "(role cu = Some BOSS_ROLE \<and> load_user s i = Some u \<longrightarrow>
               delete_user i rq s = Inr (Redirect Users, session_delete_user i s) \<and>
               load_user (session_delete_user i s) i = None \<and>
               approve ev i rq s =
                 Inr (Redirect Approvals,
                      try_send ev (approval_message ev u)
                        (s\<lparr>db_users := map (set_approved i) (db_users s)\<rparr>)) \<and>
               load_user (try_send ev (approval_message ev u)
                        (s\<lparr>db_users := map (set_approved i) (db_users s)\<rparr>)) i =
                 Some (u\<lparr>approved := True\<rparr>)) \<and>
            (staff cu \<and> form rq ''title'' = Some t \<and> form rq ''content'' = Some x \<longrightarrow>
               new_case rq s =
                 Inr (Redirect Index,
                      s\<lparr>db_cases := db_cases s @
                        [\<lparr>case_id = new_id (map case_id (db_cases s)),
                          uid = Some (user_id cu), title = t,
                          description = form rq ''description'', content = x\<rparr>]\<rparr>)) \<and>
            (find_case s c = Some k \<and>
             (role cu = Some BOSS_ROLE \<or> eq_user cu (case_user s k)) \<longrightarrow>
               delete_case c rq s =
                 Inr (Redirect Index,
                      s\<lparr>db_cases := filter (\<lambda>k. case_id k \<noteq> c) (db_cases s)\<rparr>) \<and>
               find_case (s\<lparr>db_cases := filter (\<lambda>k. case_id k \<noteq> c) (db_cases s)\<rparr>) c =
                 None)"
    by (rule post_performed [OF assms p])
  have e: "(load_user s i = Some u \<and> (role cu = Some BOSS_ROLE \<or> user_id cu = i) \<and>
             form rq ''name'' = Some n \<and> form rq ''email'' = Some e \<longrightarrow>
               user_page i rq s =
                 Inr (Redirect (User_page i),
                      s\<lparr>db_users := map (set_user_fields i n (form rq ''last_name'') e)
                                       (db_users s)\<rparr>)) \<and>
            (find_case s c = Some k \<and>
             (role cu = Some BOSS_ROLE \<or> eq_user cu (case_user s k)) \<and>
             form rq ''title'' = Some t \<and> form rq ''content'' = Some x \<longrightarrow>
               case_page c rq s =
                 Inr (Redirect (Case_page c),
                      s\<lparr>db_cases := map (set_case_fields c t (form rq ''description'') x)
                                       (db_cases s)\<rparr>))"
    using post_edits [OF assms p, of i u n e c k t x] by blast
  from r d e show "(role cu \<noteq> Some BOSS_ROLE \<or> load_user s i = None \<longrightarrow>
               delete_user i rq s = Inr (Redirect Index, s) \<and>
               approve ev i rq s = Inr (Redirect Index, s)) \<and>
            (\<not> staff cu \<longrightarrow> new_case rq s = Inr (Redirect Index, s)) \<and>
            (role cu = Some BOSS_ROLE \<and> find_case s c = None \<longrightarrow>
               delete_case c rq s = Inr (Redirect Index, s)) \<and>
            (role cu \<noteq> Some BOSS_ROLE \<and> find_case s c = Some k \<and>
             \<not> eq_user cu (case_user s k) \<longrightarrow>
               delete_case c rq s = Inr (Redirect Index, s)) \<and>
            (role cu = Some BOSS_ROLE \<and> load_user s i = Some u \<longrightarrow>
               delete_user i rq s = Inr (Redirect Users, session_delete_user i s) \<and>
               load_user (session_delete_user i s) i = None \<and>
               approve ev i rq s =
                 Inr (Redirect Approvals,
                      try_send ev (approval_message ev u)
                        (s\<lparr>db_users := map (set_approved i) (db_users s)\<rparr>)) \<and>
               load_user (try_send ev (approval_message ev u)
                        (s\<lparr>db_users := map (set_approved i) (db_users s)\<rparr>)) i =
                 Some (u\<lparr>approved := True\<rparr>)) \<and>
            (staff cu \<and> form rq ''title'' = Some t \<and> form rq ''content'' = Some x \<longrightarrow>
               new_case rq s =
                 Inr (Redirect Index,
                      s\<lparr>db_cases := db_cases s @
                        [\<lparr>case_id = new_id (map case_id (db_cases s)),
                          uid = Some (user_id cu), title = t,
                          description = form rq ''description'', content = x\<rparr>]\<rparr>)) \<and>
            (find_case s c = Some k \<and>
             (role cu = Some BOSS_ROLE \<or> eq_user cu (case_user s k)) \<longrightarrow>
               delete_case c rq s =
                 Inr (Redirect Index,
                      s\<lparr>db_cases := filter (\<lambda>k. case_id k \<noteq> c) (db_cases s)\<rparr>) \<and>
               find_case (s\<lparr>db_cases := filter (\<lambda>k. case_id k \<noteq> c) (db_cases s)\<rparr>) c =
                 None) \<and>
            (load_user s i = Some u \<and> (role cu = Some BOSS_ROLE \<or> user_id cu = i) \<and>
             form rq ''name'' = Some n \<and> form rq ''email'' = Some e \<longrightarrow>
               user_page i rq s =
                 Inr (Redirect (User_page i),
                      s\<lparr>db_users := map (set_user_fields i n (form rq ''last_name'') e)
                                       (db_users s)\<rparr>)) \<and>
            (find_case s c = Some k \<and>
             (role cu = Some BOSS_ROLE \<or> eq_user cu (case_user s k)) \<and>
             form rq ''title'' = Some t \<and> form rq ''content'' = Some x \<longrightarrow>
               case_page c rq s =
                 Inr (Redirect (Case_page c),
                      s\<lparr>db_cases := map (set_case_fields c t (form rq ''description'') x)
                                       (db_cases s)\<rparr>))"
    by blast
qed

theorem mutating_routes_get_and_post_witness:
  "delete_user 2 get (agency (Some 3)) = Inr (Redirect Index, agency (Some 3)) \<and>
   approve demo_env 2 get (agency (Some 3)) = Inr (Redirect Index, agency (Some 3)) \<and>
   delete_case 1 get (agency (Some 3)) = Inr (Redirect Index, agency (Some 3)) \<and>
   new_case get (agency (Some 3)) = Inr (Redirect Index, agency (Some 3)) \<and>
   user_page 2 get (agency (Some 3)) = Inr (Redirect Index, agency (Some 3)) \<and>
   case_page 1 get (agency (Some 3)) = Inr (Render (Case_page_html case1), agency (Some 3)) \<and>
   delete_user 2 (post edit_form) (agency (Some 3)) = Inr (Redirect Index, agency (Some 3)) \<and>
   approve demo_env 2 (post edit_form) (agency (Some 3)) =
     Inr (Redirect Index, agency (Some 3)) \<and>
   new_case (post edit_form) (agency (Some 3)) = Inr (Redirect Index, agency (Some 3)) \<and>
   delete_case 1 (post edit_form) (agency (Some 3)) = Inr (Redirect Index, agency (Some 3)) \<and>
   delete_user 9 (post []) (agency (Some 1)) = Inr (Redirect Index, agency (Some 1)) \<and>
   approve demo_env 9 (post []) (agency (Some 1)) = Inr (Redirect Index, agency (Some 1)) \<and>
   delete_case 9 (post []) (agency (Some 1)) = Inr (Redirect Index, agency (Some 1)) \<and>
   delete_user 2 (post edit_form) (agency (Some 1)) =
     Inr (Redirect Users,
          (agency (Some 1))\<lparr>db_users := [boss, bob], db_cases := [case1\<lparr>uid := None\<rparr>]\<rparr>) \<and>
   approve demo_env 2 (post edit_form) (agency (Some 1)) =
     Inr (Redirect Approvals,
          (agency (Some 1))\<lparr>db_users := [boss, alice\<lparr>approved := True\<rparr>, bob],
            send_calls := [approval_message demo_env alice],
            stdout := [Email_settings_warning]\<rparr>) \<and>
   new_case (post edit_form) (agency (Some 1)) =
     Inr (Redirect Index,
          (agency (Some 1))\<lparr>db_cases := [case1,
            \<lparr>case_id = 2, uid = Some 1, title = ''T'', description = None,
             content = ''X''\<rparr>]\<rparr>) \<and>
   delete_case 1 (post edit_form) (agency (Some 1)) =
     Inr (Redirect Index, (agency (Some 1))\<lparr>db_cases := []\<rparr>) \<and>
   user_page 2 (post edit_form) (agency (Some 1)) =
     Inr (Redirect (User_page 2),
          (agency (Some 1))\<lparr>db_users :=
             [boss, alice\<lparr>name := ''N'', last_name := None, email := ''n@x.com''\<rparr>, bob]\<rparr>) \<and>
   case_page 1 (post edit_form) (agency (Some 1)) =
     Inr (Redirect (Case_page 1),
          (agency (Some 1))\<lparr>db_cases :=
             [case1\<lparr>title := ''T'', description := None, content := ''X''\<rparr>]\<rparr>)"
proof -
  let ?g = "agency (Some 3)" and ?b = "agency (Some 1)"
  have cu: "current_user ?g = Some bob" "current_user ?b = Some boss"
    by (simp_all add: query_defs demo_defs)
  have m: "request_method get = GET" "request_method (post edit_form) = POST"
    "request_method (post []) = POST"
    by (simp_all add: get_def post_def)
  have f: "form (post edit_form) ''name'' = Some ''N''"
    "form (post edit_form) ''email'' = Some ''n@x.com''"
    "form (post edit_form) ''last_name'' = None"
    "form (post edit_form) ''title'' = Some ''T''"
    "form (post edit_form) ''content'' = Some ''X''"
    "form (post edit_form) ''description'' = None"
    by (simp_all add: post_def fields_def edit_form_def)
  have q: "\<not> staff bob" "role bob \<noteq> Some BOSS_ROLE" "user_id bob \<noteq> 2"
    "load_user ?g 2 = Some alice" "find_case ?g 1 = Some case1"
    "\<not> eq_user bob (case_user ?g case1)"
    by (simp_all add: staff_def query_defs demo_defs)
  have b: "role boss = Some BOSS_ROLE" "staff boss" "load_user ?b 9 = None"
    "find_case ?b 9 = None" "load_user ?b 2 = Some alice" "find_case ?b 1 = Some case1"
    "user_id boss = 1"
    by (simp_all add: staff_def query_defs demo_defs)
  have v: "session_delete_user 2 ?b =
             ?b\<lparr>db_users := [boss, bob], db_cases := [case1\<lparr>uid := None\<rparr>]\<rparr>"
    "try_send demo_env (approval_message demo_env alice)
       (?b\<lparr>db_users := map (set_approved 2) (db_users ?b)\<rparr>) =
     ?b\<lparr>db_users := [boss, alice\<lparr>approved := True\<rparr>, bob],
        send_calls := [approval_message demo_env alice],
        stdout := [Email_settings_warning]\<rparr>"
    "db_cases ?b @ [\<lparr>case_id = new_id (map case_id (db_cases ?b)), uid = Some 1,
        title = ''T'', description = None, content = ''X''\<rparr>] =
     [case1, \<lparr>case_id = 2, uid = Some 1, title = ''T'', description = None,
              content = ''X''\<rparr>]"
    "filter (\<lambda>k. case_id k \<noteq> 1) (db_cases ?b) = []"
    "map (set_user_fields 2 ''N'' None ''n@x.com'') (db_users ?b) =
       [boss, alice\<lparr>name := ''N'', last_name := None, email := ''n@x.com''\<rparr>, bob]"
    "map (set_case_fields 1 ''T'' None ''X'') (db_cases ?b) =
       [case1\<lparr>title := ''T'', description := None, content := ''X''\<rparr>]"
    by (simp_all add: session_delete_user_def orphan_def try_send_def set_approved_def
        approval_message_def new_id_def set_user_fields_def set_case_fields_def demo_defs)
  from mutating_routes_get_and_post [OF cu(1), of get 2 demo_env 1 case1 alice
      "''T''" "''X''" "''N''" "''n@x.com''"] m(1) q
  have G: "delete_user 2 get ?g = Inr (Redirect Index, ?g)"
    "approve demo_env 2 get ?g = Inr (Redirect Index, ?g)"
    "delete_case 1 get ?g = Inr (Redirect Index, ?g)"
    "new_case get ?g = Inr (Redirect Index, ?g)"
    "user_page 2 get ?g = Inr (Redirect Index, ?g)"
    "case_page 1 get ?g = Inr (Render (Case_page_html case1), ?g)"
    by simp_all
  from mutating_routes_get_and_post [OF cu(1), of "post edit_form" 2 demo_env 1 case1 alice
      "''T''" "''X''" "''N''" "''n@x.com''"] m(2) q
  have P: "delete_user 2 (post edit_form) ?g = Inr (Redirect Index, ?g)"
    "approve demo_env 2 (post edit_form) ?g = Inr (Redirect Index, ?g)"
    "new_case (post edit_form) ?g = Inr (Redirect Index, ?g)"
    "delete_case 1 (post edit_form) ?g = Inr (Redirect Index, ?g)"
    by simp_all
  from mutating_routes_get_and_post [OF cu(2), of "post []" 9 demo_env 9 case1 alice
      "''T''" "''X''" "''N''" "''n@x.com''"] m(3) b
  have B: "delete_user 9 (post []) ?b = Inr (Redirect Index, ?b)"
    "approve demo_env 9 (post []) ?b = Inr (Redirect Index, ?b)"
    "delete_case 9 (post []) ?b = Inr (Redirect Index, ?b)"
    by simp_all
  from mutating_routes_get_and_post [OF cu(2), of "post edit_form" 2 demo_env 1 case1 alice
      "''T''" "''X''" "''N''" "''n@x.com''"] m(2) b f
  have D: "delete_user 2 (post edit_form) ?b = Inr (Redirect Users, session_delete_user 2 ?b)"
    "approve demo_env 2 (post edit_form) ?b =
       Inr (Redirect Approvals, try_send demo_env (approval_message demo_env alice)
         (?b\<lparr>db_users := map (set_approved 2) (db_users ?b)\<rparr>))"
    "new_case (post edit_form) ?b =
       Inr (Redirect Index, ?b\<lparr>db_cases := db_cases ?b @
         [\<lparr>case_id = new_id (map case_id (db_cases ?b)), uid = Some 1,
           title = ''T'', description = None, content = ''X''\<rparr>]\<rparr>)"
    "delete_case 1 (post edit_form) ?b =
       Inr (Redirect Index, ?b\<lparr>db_cases := filter (\<lambda>k. case_id k \<noteq> 1) (db_cases ?b)\<rparr>)"
    "user_page 2 (post edit_form) ?b =
       Inr (Redirect (User_page 2),
            ?b\<lparr>db_users := map (set_user_fields 2 ''N'' None ''n@x.com'') (db_users ?b)\<rparr>)"
    "case_page 1 (post edit_form) ?b =
       Inr (Redirect (Case_page 1),
            ?b\<lparr>db_cases := map (set_case_fields 1 ''T'' None ''X'') (db_cases ?b)\<rparr>)"
    by simp_all
  from G P B D [unfolded v] show ?thesis by simp
qed

end
